theory Spec2Isabelle
  imports Main
begin

section \<open>JavaScript values\<close>

text \<open>
  The raw nodes handed to \<open>SemanticTree.build\<close> come from \<open>FigmaClient.extractNodes\<close>, which
  returns part of a parsed JSON document, so a raw node is any JSON value; \<open>JUndefined\<close> is what
  reading a missing property or passing no argument yields. Numbers are JSON integers: the
  code only tests them for truthiness and prints them. Strings are ASCII (a \<open>char\<close> is a byte).
  An object is the list of its own properties, in insertion order; the first entry of a key
  is the property.
\<close>

datatype jsval =
    JUndefined
  | JNull
  | JBool bool
  | JNum int
  | JStr string
  | JArr "jsval list"
  | JObj "(string \<times> jsval) list"

text \<open>A thrown value: every \<open>throw\<close> of the source throws \<open>new Error(msg)\<close> or
  \<open>new TypeError(msg)\<close>, and the engine itself raises a \<open>TypeError\<close> for a call of something
  that is not a function or a property read on \<open>null\<close>/\<open>undefined\<close> (messages as V8 words them).\<close>

datatype jserror = Error string | TypeError string

fun message_of :: "jserror \<Rightarrow> string" where
  "message_of (Error m) = m"
| "message_of (TypeError m) = m"

text \<open>\<open>!v\<close> is \<open>\<not> truthy v\<close>.\<close>

fun truthy :: "jsval \<Rightarrow> bool" where
  "truthy JUndefined = False"
| "truthy JNull = False"
| "truthy (JBool b) = b"
| "truthy (JNum n) = (n \<noteq> 0)"
| "truthy (JStr s) = (s \<noteq> [])"
| "truthy (JArr xs) = True"
| "truthy (JObj ps) = True"

text \<open>\<open>typeof v === "object"\<close> (which holds of \<open>null\<close> too).\<close>

fun typeof_object :: "jsval \<Rightarrow> bool" where
  "typeof_object JNull = True"
| "typeof_object (JArr xs) = True"
| "typeof_object (JObj ps) = True"
| "typeof_object v = False"

text \<open>\<open>Array.isArray(v)\<close>.\<close>

fun isArray :: "jsval \<Rightarrow> bool" where
  "isArray (JArr xs) = True"
| "isArray v = False"

text \<open>
  \<open>v.k\<close> and \<open>v?.k\<close> for the keys the code reads from a raw node (\<open>id\<close>, \<open>name\<close>,
  \<open>children\<close>): an object's own property, \<open>undefined\<close> when it has none. Arrays, primitives
  and \<open>Object.prototype\<close> have no property of these names; \<open>null?.k\<close> and \<open>undefined?.k\<close>
  are \<open>undefined\<close>, and the plain read \<open>v.k\<close> is only reached for objects and arrays.
\<close>

fun getProp :: "string \<Rightarrow> jsval \<Rightarrow> jsval" where
  "getProp k (JObj ps) = (case map_of ps k of Some v \<Rightarrow> v | None \<Rightarrow> JUndefined)"
| "getProp k v = JUndefined"

text \<open>\<open>v ?? d\<close>.\<close>

fun nullish :: "jsval \<Rightarrow> jsval \<Rightarrow> jsval" where
  "nullish JUndefined d = d"
| "nullish JNull d = d"
| "nullish v d = v"

subsection \<open>Strings\<close>

abbreviation dq :: string where
  "dq \<equiv> [CHR 0x22]"

definition upper_letters :: string where
  "upper_letters = ''ABCDEFGHIJKLMNOPQRSTUVWXYZ''"

definition lower_letters :: string where
  "lower_letters = ''abcdefghijklmnopqrstuvwxyz''"

definition toLowerChar :: "char \<Rightarrow> char" where
  "toLowerChar c = (case map_of (zip upper_letters lower_letters) c of Some l \<Rightarrow> l | None \<Rightarrow> c)"

text \<open>\<open>s.toLowerCase()\<close> on ASCII.\<close>

definition toLowerCase :: "string \<Rightarrow> string" where
  "toLowerCase s = map toLowerChar s"

fun startsWith :: "string \<Rightarrow> string \<Rightarrow> bool" where
  "startsWith s [] = True"
| "startsWith [] (k # ks) = False"
| "startsWith (c # cs) (k # ks) = (c = k \<and> startsWith cs ks)"

text \<open>\<open>s.includes(key)\<close>: \<open>key\<close> occurs in \<open>s\<close> as a contiguous substring.\<close>

fun includes_str :: "string \<Rightarrow> string \<Rightarrow> bool" where
  "includes_str [] key = (key = [])"
| "includes_str (c # cs) key = (startsWith (c # cs) key \<or> includes_str cs key)"

text \<open>White space that \<open>trim\<close> strips, within ASCII: tab, line feed, vertical tab, form
  feed, carriage return and space.\<close>

definition isWhiteSpace :: "char \<Rightarrow> bool" where
  "isWhiteSpace c = (c \<in> set [CHR 0x09, CHR 0x0A, CHR 0x0B, CHR 0x0C, CHR 0x0D, CHR '' ''])"

definition trim :: "string \<Rightarrow> string" where
  "trim s = rev (dropWhile isWhiteSpace (rev (dropWhile isWhiteSpace s)))"

definition digit_char :: "nat \<Rightarrow> char" where
  "digit_char d = (''0123456789'' ! d)"

function decimal :: "nat \<Rightarrow> string" where
  "decimal n = (if n < 10 then [digit_char n] else decimal (n div 10) @ [digit_char (n mod 10)])"
  by pat_completeness auto
termination
  by (relation "measure (\<lambda>n. n)") auto

fun join :: "string \<Rightarrow> string list \<Rightarrow> string" where
  "join sep [] = []"
| "join sep [s] = s"
| "join sep (s # t # ts) = s @ sep @ join sep (t # ts)"

text \<open>
  The string a template literal \<open>`${v}`\<close> puts in for \<open>v\<close>. A data object prints through
  \<open>Object.prototype.toString\<close>; an array joins its elements with commas, \<open>null\<close> and
  \<open>undefined\<close> elements printing as nothing.
\<close>

fun toStr :: "jsval \<Rightarrow> string" where
  "toStr JUndefined = ''undefined''"
| "toStr JNull = ''null''"
| "toStr (JBool b) = (if b then ''true'' else ''false'')"
| "toStr (JNum n) = (if n < 0 then ''-'' @ decimal (nat (- n)) else decimal (nat n))"
| "toStr (JStr s) = s"
| "toStr (JArr xs) =
     join '','' (map (\<lambda>x. case x of JUndefined \<Rightarrow> [] | JNull \<Rightarrow> [] | _ \<Rightarrow> toStr x) xs)"
| "toStr (JObj ps) = ''[object Object]''"

section \<open>The component model (\<open>src/core\<close>)\<close>

text \<open>
  The class of a component object. \<open>Button\<close>, \<open>InputField\<close> (which also holds
  \<open>_inputType\<close>) and \<open>NavigationRegion\<close> are the three classes of the repository.
  \<open>Derived name\<close> is a subclass of \<open>UIComponent\<close> called \<open>name\<close> that overrides neither
  \<open>describe()\<close> nor \<open>navigate()\<close> and so inherits the two methods of \<open>UIComponent\<close>, which
  throw.
\<close>

datatype cls =
    Button
  | InputField (getInputType: jsval)
  | NavigationRegion
  | Derived string

text \<open>
  A component object: its class and the fields \<open>_id\<close>, \<open>_label\<close>, \<open>_role\<close>, \<open>_state\<close>,
  \<open>_children\<close>. The selectors of the first three and of the last are the getters \<open>getId()\<close>,
  \<open>getLabel()\<close>, \<open>getRole()\<close> and \<open>getChildren()\<close> (whose copy holds the same children).
  \<open>addChild\<close> accepts instances of \<open>UIComponent\<close> only, so children are components.
\<close>

datatype component =
  Component (cls_of: cls) (getId: jsval) (getLabel: jsval) (getRole: jsval)
    (state_of: "(string \<times> jsval) list") (getChildren: "component list")

text \<open>What an array handed to an analysis pass, or the builder's \<open>_roots\<close>, can hold: a
  component object, or a plain data value.\<close>

datatype elem = Comp component | Raw jsval

text \<open>\<open>obj[key] = val\<close> on the own properties of a data object (\<open>key\<close> an ordinary property
  name, not \<open>__proto__\<close>): an existing key keeps its place.\<close>

fun setProp :: "string \<Rightarrow> jsval \<Rightarrow> (string \<times> jsval) list \<Rightarrow> (string \<times> jsval) list" where
  "setProp k v [] = [(k, v)]"
| "setProp k v ((k', v') # ps) = (if k' = k then (k, v) # ps else (k', v') # setProp k v ps)"

text \<open>\<open>getState(key)\<close>: \<open>this._state[key]\<close>, for a key that \<open>Object.prototype\<close> does not
  define (the passes read \<open>focusable\<close> only).\<close>

definition getState :: "component \<Rightarrow> string \<Rightarrow> jsval" where
  "getState c key = (case map_of (state_of c) key of Some v \<Rightarrow> v | None \<Rightarrow> JUndefined)"

text \<open>\<open>setState(key, val)\<close>, also the constructors' \<open>this._state.key = val\<close>.\<close>

definition setState :: "string \<Rightarrow> jsval \<Rightarrow> component \<Rightarrow> component" where
  "setState key val c =
     Component (cls_of c) (getId c) (getLabel c) (getRole c) (setProp key val (state_of c))
       (getChildren c)"

text \<open>
  The constructor of \<open>UIComponent\<close>. The first argument is \<open>new.target\<close>: \<open>None\<close> when
  \<open>UIComponent\<close> itself is instantiated, \<open>Some k\<close> when the constructor runs for the subclass
  \<open>k\<close> through \<open>super(id, label, role)\<close>.
\<close>

fun UIComponent_new :: "cls option \<Rightarrow> jsval \<Rightarrow> jsval \<Rightarrow> jsval \<Rightarrow> jserror + component" where
  "UIComponent_new None i l r =
     Inl (Error ''UIComponent is abstract and cannot be instantiated directly.'')"
| "UIComponent_new (Some k) i l r =
     (if \<not> truthy i then Inl (TypeError ''UIComponent requires a non-empty id.'')
      else if \<not> truthy l then Inl (TypeError ''UIComponent requires a non-empty label.'')
      else if \<not> truthy r then Inl (TypeError ''UIComponent requires a non-empty role.'')
      else Inr (Component k i l r [] []))"

definition Button_new :: "jsval \<Rightarrow> jsval \<Rightarrow> jserror + component" where
  "Button_new i l =
     (case UIComponent_new (Some Button) i l (JStr ''button'') of
        Inl e \<Rightarrow> Inl e
      | Inr c \<Rightarrow> Inr (setState ''disabled'' (JBool False) (setState ''focusable'' (JBool True) c)))"

text \<open>\<open>new InputField(id, label, inputType)\<close>; the default \<open>"text"\<close> replaces an
  \<open>undefined\<close> third argument.\<close>

definition InputField_new :: "jsval \<Rightarrow> jsval \<Rightarrow> jsval \<Rightarrow> jserror + component" where
  "InputField_new i l t =
     (let inputType = (if t = JUndefined then JStr ''text'' else t) in
      case UIComponent_new (Some (InputField inputType)) i l (JStr ''textbox'') of
        Inl e \<Rightarrow> Inl e
      | Inr c \<Rightarrow> Inr (setState ''required'' (JBool False) (setState ''focusable'' (JBool True) c)))"

definition NavigationRegion_new :: "jsval \<Rightarrow> jsval \<Rightarrow> jserror + component" where
  "NavigationRegion_new i l =
     (case UIComponent_new (Some NavigationRegion) i l (JStr ''navigation'') of
        Inl e \<Rightarrow> Inl e
      | Inr c \<Rightarrow> Inr (setState ''expanded'' (JBool True) c))"

text \<open>A subclass \<open>name\<close> whose constructor only calls \<open>super(id, label, role)\<close>.\<close>

definition Derived_new :: "string \<Rightarrow> jsval \<Rightarrow> jsval \<Rightarrow> jsval \<Rightarrow> jserror + component" where
  "Derived_new name i l r = UIComponent_new (Some (Derived name)) i l r"

definition setLabel :: "jsval \<Rightarrow> component \<Rightarrow> jserror + component" where
  "setLabel l c =
     (if \<not> truthy l then Inl (TypeError ''Label cannot be empty.'')
      else Inr (Component (cls_of c) (getId c) l (getRole c) (state_of c) (getChildren c)))"

text \<open>\<open>addChild(component)\<close>: the argument must be an instance of \<open>UIComponent\<close>.\<close>

fun addChild :: "elem \<Rightarrow> component \<Rightarrow> jserror + component" where
  "addChild (Raw v) c = Inl (TypeError ''Child must be a UIComponent instance.'')"
| "addChild (Comp k) c =
     Inr (Component (cls_of c) (getId c) (getLabel c) (getRole c) (state_of c)
            (getChildren c @ [k]))"

text \<open>\<open>setRequired(val)\<close> is a method of \<open>InputField\<close> alone; \<open>Boolean(val)\<close> is the
  truthiness of \<open>val\<close>.\<close>

fun setRequired :: "jsval \<Rightarrow> component \<Rightarrow> jserror + component" where
  "setRequired val c =
     (case cls_of c of
        InputField t \<Rightarrow> Inr (setState ''required'' (JBool (truthy val)) c)
      | _ \<Rightarrow> Inl (TypeError ''setRequired is not a function''))"

text \<open>\<open>describe()\<close>, by class.\<close>

fun describe :: "component \<Rightarrow> jserror + string" where
  "describe c =
     (case cls_of c of
        Button \<Rightarrow>
          (let dis = (if truthy (getState c ''disabled'') then '', disabled'' else '''') in
           Inr (''Button: '' @ dq @ toStr (getLabel c) @ dq @ dis
                  @ ''. Press Enter or Space to activate.''))
      | InputField t \<Rightarrow>
          (let req = (if truthy (getState c ''required'') then '', required'' else '''') in
           Inr (''Input field: '' @ dq @ toStr (getLabel c) @ dq @ '' ('' @ toStr t @ '')'' @ req
                  @ ''. Type to enter a value.''))
      | NavigationRegion \<Rightarrow>
          (let count = length (getChildren c) in
           Inr (''Navigation region: '' @ dq @ toStr (getLabel c) @ dq @ '' with ''
                  @ decimal count @ '' item'' @ (if count \<noteq> 1 then ''s'' else '''') @ ''.''))
      | Derived name \<Rightarrow> Inl (Error (''describe() must be implemented by '' @ name)))"

text \<open>\<open>navigate()\<close>, by class.\<close>

fun navigate :: "component \<Rightarrow> jserror + string" where
  "navigate c =
     (case cls_of c of
        Button \<Rightarrow>
          Inr (''Tab to focus '' @ dq @ toStr (getLabel c) @ dq
                 @ '' button. Enter or Space to click.'')
      | InputField t \<Rightarrow>
          Inr (''Tab to focus '' @ dq @ toStr (getLabel c) @ dq
                 @ '' input. Type to enter value.'')
      | NavigationRegion \<Rightarrow>
          Inr (''Tab into '' @ dq @ toStr (getLabel c) @ dq
                 @ '' navigation. Use arrow keys to move between links.'')
      | Derived name \<Rightarrow> Inl (Error (''navigate() must be implemented by '' @ name)))"

text \<open>The plain object \<open>toAuditObject()\<close> returns: id, label, role, a copy of the state and
  the children's objects.\<close>

datatype audit_object =
  AuditObject jsval jsval jsval "(string \<times> jsval) list" "audit_object list"

fun toAuditObject :: "component \<Rightarrow> audit_object" where
  "toAuditObject (Component k i l r st cs) = AuditObject i l r st (map toAuditObject cs)"

section \<open>The tree builder (\<open>src/semantic/SemanticTree.js\<close>)\<close>

abbreviation sq :: string where
  "sq \<equiv> [CHR 0x27]"

text \<open>
  What a lookup \<open>COMPONENT_MAP[key]\<close> can yield: one of the three constructor wrappers of
  the map, or a property the object literal inherits from \<open>Object.prototype\<close>. A key is a
  lower-cased string, and the only all-lower-case property names of \<open>Object.prototype\<close> are
  \<open>constructor\<close> (the function \<open>Object\<close>) and \<open>__proto__\<close> (the prototype object itself, which
  is truthy and not callable); \<open>toString\<close>, \<open>valueOf\<close>, \<open>hasOwnProperty\<close> and the others have a
  capital letter.
\<close>

datatype factory =
  NewButton | NewInputField | NewNavigationRegion | ObjectFunction | ObjectPrototype

text \<open>The own properties of \<open>COMPONENT_MAP\<close>, in the order \<open>Object.keys\<close> lists them.\<close>

definition COMPONENT_MAP :: "(string \<times> factory) list" where
  "COMPONENT_MAP =
     [(''button'', NewButton),
      (''input'', NewInputField),
      (''textbox'', NewInputField),
      (''nav'', NewNavigationRegion),
      (''navigation'', NewNavigationRegion)]"

definition Object_prototype :: "(string \<times> factory) list" where
  "Object_prototype = [(''constructor'', ObjectFunction), (''__proto__'', ObjectPrototype)]"

text \<open>\<open>COMPONENT_MAP[key]\<close>: own properties first, then the prototype; \<open>None\<close> is
  \<open>undefined\<close>.\<close>

definition COMPONENT_MAP_get :: "string \<Rightarrow> factory option" where
  "COMPONENT_MAP_get key = map_of (COMPONENT_MAP @ Object_prototype) key"

text \<open>\<open>factory(node)\<close>. \<open>Object(node)\<close> returns its argument when that is an object.\<close>

fun call_factory :: "factory \<Rightarrow> jsval \<Rightarrow> jserror + elem" where
  "call_factory NewButton node =
     (case Button_new (getProp ''id'' node) (getProp ''name'' node) of
        Inl e \<Rightarrow> Inl e | Inr c \<Rightarrow> Inr (Comp c))"
| "call_factory NewInputField node =
     (case InputField_new (getProp ''id'' node) (getProp ''name'' node) JUndefined of
        Inl e \<Rightarrow> Inl e | Inr c \<Rightarrow> Inr (Comp c))"
| "call_factory NewNavigationRegion node =
     (case NavigationRegion_new (getProp ''id'' node) (getProp ''name'' node) of
        Inl e \<Rightarrow> Inl e | Inr c \<Rightarrow> Inr (Comp c))"
| "call_factory ObjectFunction node = Inr (Raw node)"
| "call_factory ObjectPrototype node = Inl (TypeError ''factory is not a function'')"

text \<open>The loop of \<open>_resolveKey\<close> over \<open>Object.keys(COMPONENT_MAP)\<close>.\<close>

fun resolve_loop :: "string list \<Rightarrow> string \<Rightarrow> string" where
  "resolve_loop [] lower = lower"
| "resolve_loop (key # keys) lower =
     (if includes_str lower key then key else resolve_loop keys lower)"

text \<open>\<open>_resolveKey(name = "")\<close>: the default stands in for \<open>undefined\<close> only; any other
  value that is not a string has no \<open>toLowerCase\<close> method.\<close>

fun resolveKey :: "jsval \<Rightarrow> jserror + string" where
  "resolveKey JUndefined = Inr (resolve_loop (map fst COMPONENT_MAP) (toLowerCase []))"
| "resolveKey (JStr name) = Inr (resolve_loop (map fst COMPONENT_MAP) (toLowerCase name))"
| "resolveKey JNull =
     Inl (TypeError (''Cannot read properties of null (reading '' @ sq @ ''toLowerCase''
                       @ sq @ '')''))"
| "resolveKey v = Inl (TypeError ''name.toLowerCase is not a function'')"

record parse_error =
  nodeId :: jsval
  message :: string

text \<open>\<open>component.addChild(childComponent)\<close> in \<open>_parseNode\<close>, where \<open>component\<close> is whatever
  the factory returned.\<close>

fun call_addChild :: "elem \<Rightarrow> elem \<Rightarrow> jserror + elem" where
  "call_addChild (Raw v) child = Inl (TypeError ''component.addChild is not a function'')"
| "call_addChild (Comp c) child =
     (case addChild child c of Inl e \<Rightarrow> Inl e | Inr c' \<Rightarrow> Inr (Comp c'))"

text \<open>The record both \<open>catch\<close> blocks push: \<open>{ nodeId: node?.id ?? "unknown", message:
  e.message }\<close>.\<close>

definition caught :: "jsval \<Rightarrow> jserror \<Rightarrow> parse_error" where
  "caught node e =
     \<lparr>nodeId = nullish (getProp ''id'' node) (JStr ''unknown''), message = message_of e\<rparr>"

lemma getProp_size: "getProp k node = JArr cs \<Longrightarrow> size (JArr cs) < size node"
proof (cases node)
  case (JObj ps)
  assume a: "getProp k node = JArr cs"
  have "map_of ps k = Some v \<Longrightarrow> size v < size (JObj ps)" for v
  proof (induction ps)
    case Nil
    then show ?case by simp
  next
    case (Cons p ps)
    then show ?case by (cases p) (auto split: if_splits)
  qed
  with a JObj show ?thesis by (auto split: option.splits)
qed auto

text \<open>
  \<open>_parseNode(node)\<close>, with \<open>this._errors\<close> passed in and returned: the result is what the
  call throws (\<open>Inl\<close>) or returns (\<open>Inr None\<close> for \<open>null\<close>), and the error list as the call
  leaves it. \<open>parseChildren\<close> is the loop over \<open>node.children\<close>, its \<open>try\<close>/\<open>catch\<close> around
  each child.
\<close>

function parseNode :: "jsval \<Rightarrow> parse_error list \<Rightarrow> (jserror + elem option) \<times> parse_error list"
  and parseChildren :: "jsval list \<Rightarrow> elem \<Rightarrow> parse_error list \<Rightarrow> elem \<times> parse_error list"
where
  "parseNode node errors =
     (if \<not> truthy node \<or> \<not> typeof_object node
      then (Inl (TypeError ''Invalid node: expected an object.''), errors)
      else
        case resolveKey (getProp ''name'' node) of
          Inl e \<Rightarrow> (Inl e, errors)
        | Inr key \<Rightarrow>
            (case COMPONENT_MAP_get key of
               None \<Rightarrow>
                 (Inr None,
                  errors @
                    [\<lparr>nodeId = nullish (getProp ''id'' node) (JStr ''unknown''),
                      message = ''Unsupported component type: '' @ dq
                        @ toStr (getProp ''name'' node) @ dq @ ''. Skipped.''\<rparr>])
             | Some factory \<Rightarrow>
                 (case call_factory factory node of
                    Inl e \<Rightarrow> (Inl e, errors)
                  | Inr component \<Rightarrow>
                      (case getProp ''children'' node of
                         JArr children \<Rightarrow>
                           (case parseChildren children component errors of
                              (component', errors') \<Rightarrow> (Inr (Some component'), errors'))
                       | _ \<Rightarrow> (Inr (Some component), errors)))))"
| "parseChildren [] component errors = (component, errors)"
| "parseChildren (child # rest) component errors =
     (case parseNode child errors of
        (Inl e, errors') \<Rightarrow> parseChildren rest component (errors' @ [caught child e])
      | (Inr None, errors') \<Rightarrow> parseChildren rest component errors'
      | (Inr (Some childComponent), errors') \<Rightarrow>
          (case call_addChild component childComponent of
             Inl e \<Rightarrow> parseChildren rest component (errors' @ [caught child e])
           | Inr component' \<Rightarrow> parseChildren rest component' errors'))"
  by pat_completeness auto
termination
  by (relation "measure (\<lambda>x. case x of
                    Inl (node, errors) \<Rightarrow> size node
                  | Inr (children, component, errors) \<Rightarrow> size (JArr children))")
     (auto dest: getProp_size)

text \<open>The builder object: its fields \<open>_roots\<close> and \<open>_errors\<close>.\<close>

record SemanticTree =
  the_roots :: "elem list"
  the_errors :: "parse_error list"

text \<open>\<open>new SemanticTree()\<close>.\<close>

definition SemanticTree_new :: SemanticTree where
  "SemanticTree_new = \<lparr>the_roots = [], the_errors = []\<rparr>"

text \<open>The loop of \<open>build\<close> over \<open>nodes\<close>.\<close>

fun build_loop :: "jsval list \<Rightarrow> SemanticTree \<Rightarrow> SemanticTree" where
  "build_loop [] t = t"
| "build_loop (node # nodes) t =
     (case parseNode node (the_errors t) of
        (Inl e, errs) \<Rightarrow> build_loop nodes (t\<lparr>the_errors := errs @ [caught node e]\<rparr>)
      | (Inr None, errs) \<Rightarrow> build_loop nodes (t\<lparr>the_errors := errs\<rparr>)
      | (Inr (Some component), errs) \<Rightarrow>
          build_loop nodes \<lparr>the_roots = the_roots t @ [component], the_errors = errs\<rparr>)"

text \<open>\<open>build(nodes)\<close>: what the call throws or returns, and the builder after it.\<close>

definition build :: "SemanticTree \<Rightarrow> jsval \<Rightarrow> (jserror + unit) \<times> SemanticTree" where
  "build t nodes =
     (case nodes of
        JArr ns \<Rightarrow> (Inr (), build_loop ns \<lparr>the_roots = [], the_errors = []\<rparr>)
      | _ \<Rightarrow> (Inl (TypeError ''SemanticTree.build() expects an array of nodes.''), t))"

text \<open>\<open>getRoots()\<close> and \<open>getErrors()\<close>: the elements of a fresh copy of the stored array.\<close>

definition getRoots :: "SemanticTree \<Rightarrow> elem list" where
  "getRoots t = the_roots t"

definition getErrors :: "SemanticTree \<Rightarrow> parse_error list" where
  "getErrors t = the_errors t"

text \<open>\<open>r.toAuditObject()\<close> for an element of \<open>_roots\<close>.\<close>

fun call_toAuditObject :: "elem \<Rightarrow> jserror + audit_object" where
  "call_toAuditObject (Raw v) = Inl (TypeError ''r.toAuditObject is not a function'')"
| "call_toAuditObject (Comp c) = Inr (toAuditObject c)"

text \<open>\<open>this._roots.map(r => r.toAuditObject())\<close>: the first call that throws ends the
  \<open>map\<close>.\<close>

fun map_toAuditObject :: "elem list \<Rightarrow> jserror + audit_object list" where
  "map_toAuditObject [] = Inr []"
| "map_toAuditObject (r # rs) =
     (case call_toAuditObject r of
        Inl e \<Rightarrow> Inl e
      | Inr obj \<Rightarrow> (case map_toAuditObject rs of Inl e \<Rightarrow> Inl e | Inr objs \<Rightarrow> Inr (obj # objs)))"

text \<open>\<open>toJSON()\<close>: the pair of \<open>components\<close> and \<open>errors\<close>.\<close>

definition toJSON :: "SemanticTree \<Rightarrow> jserror + (audit_object list \<times> parse_error list)" where
  "toJSON t =
     (case map_toAuditObject (the_roots t) of
        Inl e \<Rightarrow> Inl e
      | Inr components \<Rightarrow> Inr (components, the_errors t))"

section \<open>The analysis passes (\<open>src/accessibility\<close>)\<close>

text \<open>
  The argument of a pass: an array whose elements are component objects or data values, or
  a data value (\<open>Data (JArr vs)\<close> is the array of the data values \<open>vs\<close>).
\<close>

datatype argument = Array "elem list" | Data jsval

fun array_elems :: "argument \<Rightarrow> elem list option" where
  "array_elems (Array es) = Some es"
| "array_elems (Data (JArr vs)) = Some (map Raw vs)"
| "array_elems (Data v) = None"

text \<open>What the engine throws for the call \<open>recv.m(...)\<close> when \<open>recv\<close> is a data value: data
  holds no functions.\<close>

fun no_method :: "string \<Rightarrow> string \<Rightarrow> jsval \<Rightarrow> jserror" where
  "no_method recv m JNull =
     TypeError (''Cannot read properties of null (reading '' @ sq @ m @ sq @ '')'')"
| "no_method recv m JUndefined =
     TypeError (''Cannot read properties of undefined (reading '' @ sq @ m @ sq @ '')'')"
| "no_method recv m v = TypeError (recv @ ''.'' @ m @ '' is not a function'')"

fun call_describe :: "elem \<Rightarrow> jserror + string" where
  "call_describe (Raw v) = Inl (no_method ''component'' ''describe'' v)"
| "call_describe (Comp c) = describe c"

fun call_navigate :: "elem \<Rightarrow> jserror + string" where
  "call_navigate (Raw v) = Inl (no_method ''component'' ''navigate'' v)"
| "call_navigate (Comp c) = navigate c"

fun call_getChildren :: "elem \<Rightarrow> jserror + elem list" where
  "call_getChildren (Raw v) = Inl (no_method ''component'' ''getChildren'' v)"
| "call_getChildren (Comp c) = Inr (map Comp (getChildren c))"

fun call_getState :: "elem \<Rightarrow> string \<Rightarrow> jserror + jsval" where
  "call_getState (Raw v) key = Inl (no_method ''component'' ''getState'' v)"
| "call_getState (Comp c) key = Inr (getState c key)"

fun call_getLabel :: "elem \<Rightarrow> jserror + jsval" where
  "call_getLabel (Raw v) = Inl (no_method ''component'' ''getLabel'' v)"
| "call_getLabel (Comp c) = Inr (getLabel c)"

fun elem_size :: "elem \<Rightarrow> nat" where
  "elem_size (Comp c) = size c"
| "elem_size (Raw v) = 0"

lemma size_child: "x \<in> set cs \<Longrightarrow> size x < Suc (size_list size cs)"
  by (induction cs) auto

lemma call_getChildren_size:
  "call_getChildren component = Inr children \<Longrightarrow> child \<in> set children
    \<Longrightarrow> elem_size child < elem_size component"
  by (cases component; cases "case component of Comp c \<Rightarrow> c") (auto simp: size_child)

subsection \<open>\<open>ScreenReaderService\<close>\<close>

definition screen_reader_error :: "jserror \<Rightarrow> string" where
  "screen_reader_error e = ''[Screen reader error for component: '' @ message_of e @ '']''"

text \<open>\<open>_traverse(component, output)\<close>; the result is \<open>output\<close> as the call leaves it. Each
  \<open>Inl\<close> branch is the \<open>catch\<close> block, entered from where the \<open>try\<close> block threw.\<close>

function traverse :: "elem \<Rightarrow> string list \<Rightarrow> string list" where
  "traverse component output =
     (case call_describe component of
        Inl e \<Rightarrow> output @ [screen_reader_error e]
      | Inr line \<Rightarrow>
          (case call_getChildren component of
             Inl e \<Rightarrow> (output @ [line]) @ [screen_reader_error e]
           | Inr children \<Rightarrow> fold traverse children (output @ [line])))"
  by pat_completeness auto
termination
  by (relation "measure (\<lambda>(component, output). elem_size component)")
     (auto dest: call_getChildren_size)

definition generateReadingOrder :: "argument \<Rightarrow> jserror + string list" where
  "generateReadingOrder roots =
     (case array_elems roots of
        None \<Rightarrow> Inl (TypeError ''generateReadingOrder expects an array of UIComponents.'')
      | Some components \<Rightarrow> Inr (fold traverse components []))"

subsection \<open>\<open>KeyboardNavigator\<close>\<close>

record tab_entry =
  label :: jsval
  hint :: string

definition navigation_error :: "jserror \<Rightarrow> tab_entry" where
  "navigation_error e =
     \<lparr>label = JStr ''unknown'', hint = ''[Navigation error: '' @ message_of e @ '']''\<rparr>"

text \<open>\<open>_collect(component, order)\<close>. The object literal reads \<open>getLabel()\<close>, then
  \<open>navigate()\<close>, and only then is the entry pushed.\<close>

function collect :: "elem \<Rightarrow> tab_entry list \<Rightarrow> tab_entry list" where
  "collect component order =
     (case call_getState component ''focusable'' of
        Inl e \<Rightarrow> order @ [navigation_error e]
      | Inr focusable \<Rightarrow>
          (case (if truthy focusable
                 then (case call_getLabel component of
                         Inl e \<Rightarrow> Inl e
                       | Inr l \<Rightarrow>
                           (case call_navigate component of
                              Inl e \<Rightarrow> Inl e
                            | Inr h \<Rightarrow> Inr (order @ [\<lparr>label = l, hint = h\<rparr>])))
                 else Inr order) of
             Inl e \<Rightarrow> order @ [navigation_error e]
           | Inr order' \<Rightarrow>
               (case call_getChildren component of
                  Inl e \<Rightarrow> order' @ [navigation_error e]
                | Inr children \<Rightarrow> fold collect children order')))"
  by pat_completeness auto
termination
  by (relation "measure (\<lambda>(component, order). elem_size component)")
     (auto dest: call_getChildren_size)

definition buildTabOrder :: "argument \<Rightarrow> jserror + tab_entry list" where
  "buildTabOrder roots =
     (case array_elems roots of
        None \<Rightarrow> Inl (TypeError ''buildTabOrder expects an array of UIComponents.'')
      | Some components \<Rightarrow> Inr (fold collect components []))"

subsection \<open>\<open>AuditService\<close>\<close>

text \<open>A rule: \<open>check(c)\<close> throws, or returns an issue string (\<open>Some\<close>) or \<open>null\<close>.\<close>

record rule =
  rule_id :: string
  description :: string
  check :: "elem \<Rightarrow> jserror + string option"

fun check_LABEL_EMPTY :: "elem \<Rightarrow> jserror + string option" where
  "check_LABEL_EMPTY (Raw v) = Inl (no_method ''c'' ''getLabel'' v)"
| "check_LABEL_EMPTY (Comp c) =
     (let issue = ''Component ['' @ toStr (getId c) @ ''] has an empty label.'' in
      if \<not> truthy (getLabel c) then Inr (Some issue)
      else case getLabel c of
             JStr s \<Rightarrow> Inr (if trim s = [] then Some issue else None)
           | _ \<Rightarrow> Inl (TypeError ''c.getLabel(...).trim is not a function''))"

fun check_ROLE_PRESENT :: "elem \<Rightarrow> jserror + string option" where
  "check_ROLE_PRESENT (Raw v) = Inl (no_method ''c'' ''getRole'' v)"
| "check_ROLE_PRESENT (Comp c) =
     (let issue = ''Component ['' @ toStr (getId c) @ ''] '' @ dq @ toStr (getLabel c) @ dq
                    @ '' is missing an ARIA role.'' in
      if \<not> truthy (getRole c) then Inr (Some issue)
      else case getRole c of
             JStr s \<Rightarrow> Inr (if trim s = [] then Some issue else None)
           | _ \<Rightarrow> Inl (TypeError ''c.getRole(...).trim is not a function''))"

fun check_FOCUSABLE_BUTTON :: "elem \<Rightarrow> jserror + string option" where
  "check_FOCUSABLE_BUTTON (Raw v) = Inl (no_method ''c'' ''getRole'' v)"
| "check_FOCUSABLE_BUTTON (Comp c) =
     Inr (if getRole c = JStr ''button'' \<and> \<not> truthy (getState c ''focusable'')
          then Some (''Button '' @ dq @ toStr (getLabel c) @ dq @ '' ['' @ toStr (getId c)
                       @ ''] is not marked as focusable.'')
          else None)"

definition RULES :: "rule list" where
  "RULES =
     [\<lparr>rule_id = ''LABEL_EMPTY'',
       description = ''All components must have a non-empty accessible label.'',
       check = check_LABEL_EMPTY\<rparr>,
      \<lparr>rule_id = ''ROLE_PRESENT'',
       description = ''All components must declare an ARIA role.'',
       check = check_ROLE_PRESENT\<rparr>,
      \<lparr>rule_id = ''FOCUSABLE_BUTTON'',
       description = ''All button components must be focusable.'',
       check = check_FOCUSABLE_BUTTON\<rparr>]"

text \<open>The two arrays \<open>runAudit\<close> returns.\<close>

record audit_result =
  passed :: "string list"
  failed :: "string list"

definition failed_entry :: "rule \<Rightarrow> string \<Rightarrow> string" where
  "failed_entry r issue = ''['' @ rule_id r @ ''] '' @ issue"

definition passed_entry :: "rule \<Rightarrow> jsval \<Rightarrow> string" where
  "passed_entry r l = ''['' @ rule_id r @ ''] '' @ dq @ toStr l @ dq @ '' passed.''"

definition audit_error :: "jserror \<Rightarrow> string" where
  "audit_error e = ''[AUDIT_ERROR] Unexpected error auditing component: '' @ message_of e"

text \<open>
  The loop over the rules in \<open>_auditComponent\<close>: the error that ended it, if one did, and
  the two arrays as the loop leaves them. \<open>if (issue)\<close> takes \<open>null\<close> and the empty string
  for a pass.
\<close>

fun run_rules :: "rule list \<Rightarrow> elem \<Rightarrow> audit_result \<Rightarrow> jserror option \<times> audit_result" where
  "run_rules [] component res = (None, res)"
| "run_rules (r # rs) component res =
     (case check r component of
        Inl e \<Rightarrow> (Some e, res)
      | Inr issue \<Rightarrow>
          (if issue \<noteq> None \<and> issue \<noteq> Some []
           then run_rules rs component (res\<lparr>failed := failed res @ [failed_entry r (the issue)]\<rparr>)
           else case call_getLabel component of
                  Inl e \<Rightarrow> (Some e, res)
                | Inr l \<Rightarrow>
                    run_rules rs component (res\<lparr>passed := passed res @ [passed_entry r l]\<rparr>)))"

text \<open>\<open>_auditComponent(component, passed, failed)\<close>.\<close>

function auditComponent :: "elem \<Rightarrow> audit_result \<Rightarrow> audit_result" where
  "auditComponent component res =
     (case run_rules RULES component res of
        (Some e, res') \<Rightarrow> res'\<lparr>failed := failed res' @ [audit_error e]\<rparr>
      | (None, res') \<Rightarrow>
          (case call_getChildren component of
             Inl e \<Rightarrow> res'\<lparr>failed := failed res' @ [audit_error e]\<rparr>
           | Inr children \<Rightarrow> fold auditComponent children res'))"
  by pat_completeness auto
termination
  by (relation "measure (\<lambda>(component, res). elem_size component)")
     (auto dest: call_getChildren_size)

definition runAudit :: "argument \<Rightarrow> jserror + audit_result" where
  "runAudit roots =
     (case array_elems roots of
        None \<Rightarrow> Inl (TypeError ''runAudit expects an array of UIComponents.'')
      | Some components \<Rightarrow> Inr (fold auditComponent components \<lparr>passed = [], failed = []\<rparr>))"

section \<open>Operations on a component\<close>

text \<open>The methods of a component object that change it (\<open>setRequired\<close> on an
  \<open>InputField\<close> only); \<open>id\<close> and \<open>role\<close> have no setter.\<close>

datatype operation =
    SetLabel jsval
  | SetState string jsval
  | AddChild elem
  | SetRequired jsval

fun apply_op :: "operation \<Rightarrow> component \<Rightarrow> jserror + component" where
  "apply_op (SetLabel l) c = setLabel l c"
| "apply_op (SetState key val) c = Inr (setState key val c)"
| "apply_op (AddChild child) c = addChild child c"
| "apply_op (SetRequired val) c = setRequired val c"

text \<open>The components a program can hold: built by a constructor that returned, then changed
  by method calls that returned; a child that is added is such a component itself.\<close>

inductive constructed :: "component \<Rightarrow> bool" where
  by_Button: "Button_new i l = Inr c \<Longrightarrow> constructed c"
| by_InputField: "InputField_new i l t = Inr c \<Longrightarrow> constructed c"
| by_NavigationRegion: "NavigationRegion_new i l = Inr c \<Longrightarrow> constructed c"
| by_Derived: "Derived_new name i l r = Inr c \<Longrightarrow> constructed c"
| by_method: "constructed c \<Longrightarrow> apply_op op c = Inr c' \<Longrightarrow>
     (\<And>k. op = AddChild (Comp k) \<Longrightarrow> constructed k) \<Longrightarrow> constructed c'"

text \<open>The components of a tree, parent before children, children in order.\<close>

fun preorder :: "component \<Rightarrow> component list" where
  "preorder (Component k i l r st cs) = Component k i l r st cs # concat (map preorder cs)"

text \<open>The invariant of one component object, and of every object of a tree.\<close>

definition nonempty :: "component \<Rightarrow> bool" where
  "nonempty c = (truthy (getId c) \<and> truthy (getLabel c) \<and> truthy (getRole c))"

definition all_nonempty :: "component \<Rightarrow> bool" where
  "all_nonempty c = list_all nonempty (preorder c)"

section \<open>The builder's arrays in a store\<close>

text \<open>
  \<open>getRoots()\<close> and \<open>getErrors()\<close> return \<open>[...this._roots]\<close> and \<open>[...this._errors]\<close>, new
  arrays, while \<open>toJSON()\<close> returns \<open>this._errors\<close> itself. What a caller can change through
  a returned array depends on which array it is, so here arrays live in a store and the
  builder's fields hold addresses.
\<close>

type_synonym addr = nat

datatype item = ElemItem elem | ErrorItem parse_error | AuditItem audit_object

text \<open>The store is the list of the arrays allocated so far; an address is a position in it.\<close>

type_synonym store = "item list list"

record SemanticTree_ref =
  roots_ref :: addr
  errors_ref :: addr

definition allocated :: "store \<Rightarrow> addr \<Rightarrow> bool" where
  "allocated s a = (a < length s)"

text \<open>A new array holding \<open>xs\<close>.\<close>

definition alloc :: "item list \<Rightarrow> store \<Rightarrow> addr \<times> store" where
  "alloc xs s = (length s, s @ [xs])"

text \<open>The elements of the array at an address.\<close>

definition elements :: "store \<Rightarrow> addr \<Rightarrow> item list" where
  "elements s a = (if a < length s then s ! a else [])"

text \<open>Any change a caller makes to the array at \<open>a\<close> (\<open>push\<close>, \<open>pop\<close>, \<open>splice\<close>, an
  assignment to an index or to \<open>length\<close>) leaves it holding some elements \<open>xs\<close>.\<close>

definition mutate :: "addr \<Rightarrow> item list \<Rightarrow> store \<Rightarrow> store" where
  "mutate a xs s = s[a := xs]"

definition getRoots_ref :: "SemanticTree_ref \<Rightarrow> store \<Rightarrow> addr \<times> store" where
  "getRoots_ref t s = alloc (elements s (roots_ref t)) s"

definition getErrors_ref :: "SemanticTree_ref \<Rightarrow> store \<Rightarrow> addr \<times> store" where
  "getErrors_ref t s = alloc (elements s (errors_ref t)) s"

fun item_toAuditObject :: "item \<Rightarrow> jserror + audit_object" where
  "item_toAuditObject (ElemItem r) = call_toAuditObject r"
| "item_toAuditObject other = Inl (TypeError ''r.toAuditObject is not a function'')"

fun map_item_toAuditObject :: "item list \<Rightarrow> jserror + audit_object list" where
  "map_item_toAuditObject [] = Inr []"
| "map_item_toAuditObject (r # rs) =
     (case item_toAuditObject r of
        Inl e \<Rightarrow> Inl e
      | Inr obj \<Rightarrow>
          (case map_item_toAuditObject rs of Inl e \<Rightarrow> Inl e | Inr objs \<Rightarrow> Inr (obj # objs)))"

text \<open>\<open>toJSON()\<close>: the addresses of \<open>components\<close>, a new array, and of \<open>errors\<close>, the
  builder's own.\<close>

definition toJSON_ref ::
  "SemanticTree_ref \<Rightarrow> store \<Rightarrow> (jserror + addr \<times> addr) \<times> store" where
  "toJSON_ref t s =
     (case map_item_toAuditObject (elements s (roots_ref t)) of
        Inl e \<Rightarrow> (Inl e, s)
      | Inr objs \<Rightarrow>
          (case alloc (map AuditItem objs) s of
             (components, s') \<Rightarrow> (Inr (components, errors_ref t), s')))"

text \<open>\<open>build(nodes)\<close> in the store: \<open>this._roots = []\<close> and \<open>this._errors = []\<close> are new
  arrays, which the loop fills.\<close>

definition build_ref ::
  "SemanticTree_ref \<Rightarrow> store \<Rightarrow> jsval \<Rightarrow> (jserror + unit) \<times> SemanticTree_ref \<times> store" where
  "build_ref t s nodes =
     (case nodes of
        JArr ns \<Rightarrow>
          (let result = build_loop ns \<lparr>the_roots = [], the_errors = []\<rparr> in
           case alloc (map ElemItem (the_roots result)) s of
             (r, s1) \<Rightarrow>
               (case alloc (map ErrorItem (the_errors result)) s1 of
                  (e, s2) \<Rightarrow> (Inr (), \<lparr>roots_ref = r, errors_ref = e\<rparr>, s2)))
      | _ \<Rightarrow> (Inl (TypeError ''SemanticTree.build() expects an array of nodes.''), t, s))"

text \<open>What a caller reads off a builder: the elements of \<open>getRoots()\<close> and \<open>getErrors()\<close>,
  and through \<open>toJSON()\<close> the objects of \<open>components\<close> and the elements of \<open>errors\<close>.\<close>

definition observe_getRoots :: "SemanticTree_ref \<Rightarrow> store \<Rightarrow> item list" where
  "observe_getRoots t s = (case getRoots_ref t s of (a, s') \<Rightarrow> elements s' a)"

definition observe_getErrors :: "SemanticTree_ref \<Rightarrow> store \<Rightarrow> item list" where
  "observe_getErrors t s = (case getErrors_ref t s of (a, s') \<Rightarrow> elements s' a)"

definition observe_toJSON ::
  "SemanticTree_ref \<Rightarrow> store \<Rightarrow> jserror + item list \<times> item list" where
  "observe_toJSON t s =
     (case toJSON_ref t s of
        (Inl e, s') \<Rightarrow> Inl e
      | (Inr (components, errs), s') \<Rightarrow> Inr (elements s' components, elements s' errs))"

section \<open>Notions used in the statements\<close>

text \<open>The names of the classification vocabulary, as the specification lists them.\<close>

definition vocabulary :: "string list" where
  "vocabulary = [''button'', ''input'', ''textbox'', ''nav'', ''navigation'']"

text \<open>\<open>key\<close> occurs in \<open>name\<close> when letter case is ignored: some contiguous part of \<open>name\<close>
  lower-cases to \<open>key\<close>.\<close>

definition matches :: "string \<Rightarrow> string \<Rightarrow> bool" where
  "matches name key = (\<exists>pre m post. name = pre @ m @ post \<and> toLowerCase m = key)"

text \<open>Two values are the same object up to the children it holds.\<close>

fun same_object :: "elem \<Rightarrow> elem \<Rightarrow> bool" where
  "same_object (Comp c) (Comp c') =
     (cls_of c' = cls_of c \<and> getId c' = getId c \<and> getLabel c' = getLabel c
      \<and> getRole c' = getRole c \<and> state_of c' = state_of c)"
| "same_object (Raw v) (Raw v') = (v' = v)"
| "same_object x y = False"


text \<open>The components of a list of trees in document order: each tree in pre-order, the
  trees in the order of the list.\<close>

definition forest :: "component list \<Rightarrow> component list" where
  "forest roots = concat (map preorder roots)"

text \<open>What each pass appends for a list of siblings (the roots, or the children of one
  component): the entries of each sibling, started from nothing, one after the other.\<close>

definition reading :: "elem list \<Rightarrow> string list" where
  "reading es = concat (map (\<lambda>x. traverse x []) es)"

definition tab_order :: "elem list \<Rightarrow> tab_entry list" where
  "tab_order es = concat (map (\<lambda>x. collect x []) es)"

definition no_entries :: audit_result where
  "no_entries = \<lparr>passed = [], failed = []\<rparr>"

text \<open>The entries of \<open>d\<close> appended to those of \<open>res\<close>, list by list.\<close>

definition merge :: "audit_result \<Rightarrow> audit_result \<Rightarrow> audit_result" where
  "merge res d = \<lparr>passed = passed res @ passed d, failed = failed res @ failed d\<rparr>"

definition audit :: "elem list \<Rightarrow> audit_result" where
  "audit es = foldr merge (map (\<lambda>x. auditComponent x no_entries) es) no_entries"

definition count :: "audit_result \<Rightarrow> nat" where
  "count res = length (passed res) + length (failed res)"

text \<open>The \<open>focusable\<close> entry of a component's state is truthy.\<close>

definition focusable :: "component \<Rightarrow> bool" where
  "focusable c = truthy (getState c ''focusable'')"



text \<open>No rule check throws at a component.\<close>

definition checks_return :: "component \<Rightarrow> bool" where
  "checks_return c = list_all (\<lambda>r. \<not> isl (check r (Comp c))) RULES"

text \<open>The entries one component owes to the two lists: for each rule in table order, a
  \<open>passed\<close> line when the check returns \<open>null\<close>, a \<open>failed\<close> line when it returns an
  issue.\<close>

definition rule_passes :: "component \<Rightarrow> string list" where
  "rule_passes c =
     concat (map (\<lambda>r. case check r (Comp c) of
                         Inr None \<Rightarrow> [''['' @ rule_id r @ ''] '' @ dq @ toStr (getLabel c) @ dq
                                        @ '' passed.'']
                       | _ \<Rightarrow> []) RULES)"

definition rule_failures :: "component \<Rightarrow> string list" where
  "rule_failures c =
     concat (map (\<lambda>r. case check r (Comp c) of
                         Inr (Some issue) \<Rightarrow> [''['' @ rule_id r @ ''] '' @ issue]
                       | _ \<Rightarrow> []) RULES)"

definition entries :: "component list \<Rightarrow> audit_result" where
  "entries cs = \<lparr>passed = concat (map rule_passes cs), failed = concat (map rule_failures cs)\<rparr>"

section \<open>Sample inputs\<close>

text \<open>Two top-level nodes: a button, and a node of no known type.\<close>

definition sample_nodes :: jsval where
  "sample_nodes =
     JArr [JObj [(''id'', JStr ''b1''), (''name'', JStr ''Submit Button''), (''children'', JArr [])],
           JObj [(''id'', JStr ''x1''), (''name'', JStr ''UnknownWidget''), (''children'', JArr [])]]"

definition sample_button :: component where
  "sample_button =
     Component Button (JStr ''b1'') (JStr ''Submit Button'') (JStr ''button'')
       [(''focusable'', JBool True), (''disabled'', JBool False)] []"

definition sample_error :: parse_error where
  "sample_error =
     \<lparr>nodeId = JStr ''x1'',
      message = ''Unsupported component type: '' @ dq @ ''UnknownWidget'' @ dq @ ''. Skipped.''\<rparr>"

definition sample_tree :: SemanticTree where
  "sample_tree = \<lparr>the_roots = [Comp sample_button], the_errors = [sample_error]\<rparr>"

text \<open>A node named \<open>constructor\<close> with a button below it, and a node named \<open>__proto__\<close>.\<close>

definition constructor_node :: jsval where
  "constructor_node =
     JObj [(''id'', JStr ''x1''), (''name'', JStr ''constructor''),
           (''children'', JArr [JObj [(''id'', JStr ''b1''), (''name'', JStr ''OK Button'')]])]"

definition proto_node :: jsval where
  "proto_node = JObj [(''id'', JStr ''x2''), (''name'', JStr ''__proto__'')]"

text \<open>A node whose name holds both \<open>nav\<close> and \<open>input\<close>.\<close>

definition nav_input_node :: jsval where
  "nav_input_node = JObj [(''id'', JStr ''i1''), (''name'', JStr ''Nav Input'')]"

definition home_button :: component where
  "home_button =
     Component Button (JStr ''b2'') (JStr ''Home'') (JStr ''button'')
       [(''focusable'', JBool True), (''disabled'', JBool False)] []"

text \<open>A button after \<open>setState("focusable", false)\<close>.\<close>

definition cancel_button :: component where
  "cancel_button =
     Component Button (JStr ''b3'') (JStr ''Cancel'') (JStr ''button'')
       [(''focusable'', JBool False), (''disabled'', JBool False)] []"

text \<open>A navigation region holding two buttons.\<close>

definition main_nav :: component where
  "main_nav =
     Component NavigationRegion (JStr ''n2'') (JStr ''Main Nav'') (JStr ''navigation'')
       [(''expanded'', JBool True)] [sample_button, home_button]"

definition side_nav :: component where
  "side_nav =
     Component NavigationRegion (JStr ''n3'') (JStr ''Side Nav'') (JStr ''navigation'')
       [(''expanded'', JBool True)] [sample_button, cancel_button]"

text \<open>An instance of a subclass \<open>Card\<close> that overrides no method, holding a button; and one
  of a subclass \<open>Panel\<close>, marked focusable, holding a button.\<close>

definition card :: component where
  "card = Component (Derived ''Card'') (JStr ''c1'') (JStr ''Card'') (JStr ''group'') []
            [sample_button]"

definition panel :: component where
  "panel = Component (Derived ''Panel'') (JStr ''p1'') (JStr ''Panel'') (JStr ''group'')
             [(''focusable'', JBool True)] [sample_button]"

text \<open>\<open>new NavigationRegion("n1", 5)\<close> with a button added: the label is a number.\<close>

definition numbered_nav :: component where
  "numbered_nav =
     Component NavigationRegion (JStr ''n1'') (JNum 5) (JStr ''navigation'')
       [(''expanded'', JBool True)] [sample_button]"

text \<open>A store holding the builder's two arrays after \<open>build\<close> of the sample nodes.\<close>

definition sample_ref :: SemanticTree_ref where
  "sample_ref = \<lparr>roots_ref = 0, errors_ref = 1\<rparr>"

definition sample_store :: store where
  "sample_store = [[ElemItem (Comp sample_button)], [ErrorItem sample_error]]"

section \<open>Supporting lemmas\<close>

subsection \<open>Building the sample\<close>

lemma build_sample: "build SemanticTree_new sample_nodes = (Inr (), sample_tree)"
  by code_simp

lemma build_array: "build t (JArr ns) = (Inr (), build_loop ns \<lparr>the_roots = [], the_errors = []\<rparr>)"
  by (simp add: build_def)

subsection \<open>Substring matching and classification\<close>

lemma startsWith_iff: "startsWith s k \<longleftrightarrow> (\<exists>post. s = k @ post)"
  by (induction s k rule: startsWith.induct) auto

lemma includes_str_iff: "includes_str s k \<longleftrightarrow> (\<exists>pre post. s = pre @ k @ post)"
proof (induction s)
  case Nil
  then show ?case by auto
next
  case (Cons c cs)
  have "(\<exists>pre post. c # cs = pre @ k @ post)
      \<longleftrightarrow> (\<exists>post. c # cs = k @ post) \<or> (\<exists>pre post. cs = pre @ k @ post)"
  proof
    assume "\<exists>pre post. c # cs = pre @ k @ post"
    then obtain pre post where e: "c # cs = pre @ k @ post" by blast
    show "(\<exists>post. c # cs = k @ post) \<or> (\<exists>pre post. cs = pre @ k @ post)"
    proof (cases pre)
      case Nil
      with e show ?thesis by auto
    next
      case (Cons p pre')
      with e have "cs = pre' @ k @ post" by simp
      then show ?thesis by blast
    qed
  next
    assume "(\<exists>post. c # cs = k @ post) \<or> (\<exists>pre post. cs = pre @ k @ post)"
    then show "\<exists>pre post. c # cs = pre @ k @ post"
    proof
      assume "\<exists>post. c # cs = k @ post"
      then obtain post where "c # cs = [] @ k @ post" by auto
      then show ?thesis by blast
    next
      assume "\<exists>pre post. cs = pre @ k @ post"
      then obtain pre post where "c # cs = (c # pre) @ k @ post" by auto
      then show ?thesis by blast
    qed
  qed
  with Cons show ?case by (simp add: startsWith_iff)
qed

lemma matches_iff: "matches name key \<longleftrightarrow> includes_str (toLowerCase name) key"
proof
  assume "matches name key"
  then obtain pre m post where "name = pre @ m @ post" "toLowerCase m = key"
    by (auto simp: matches_def)
  then have "toLowerCase name = toLowerCase pre @ key @ toLowerCase post"
    by (simp add: toLowerCase_def)
  then show "includes_str (toLowerCase name) key"
    unfolding includes_str_iff by blast
next
  assume "includes_str (toLowerCase name) key"
  then obtain a b where e: "map toLowerChar name = a @ key @ b"
    unfolding includes_str_iff toLowerCase_def by blast
  then obtain pre rest where 1: "name = pre @ rest" "a = map toLowerChar pre"
      "key @ b = map toLowerChar rest"
    by (auto simp: map_eq_append_conv)
  from 1(3) obtain m post where 2: "rest = m @ post" "key = map toLowerChar m"
    by (auto simp: append_eq_map_conv)
  from 1 2 show "matches name key"
    by (auto simp: matches_def toLowerCase_def)
qed

lemma resolveKey_string:
  "resolveKey (JStr name) =
     Inr (if matches name ''button'' then ''button''
          else if matches name ''input'' then ''input''
          else if matches name ''textbox'' then ''textbox''
          else if matches name ''nav'' then ''nav''
          else if matches name ''navigation'' then ''navigation''
          else toLowerCase name)"
  by (simp add: COMPONENT_MAP_def matches_iff)

declare parseNode.simps [simp del]

lemma same_object_refl: "same_object x x"
  by (cases x) auto

lemma call_addChild_same: "call_addChild x child = Inr y \<Longrightarrow> same_object x y"
  by (cases x; cases child) auto

lemma same_object_trans: "same_object x y \<Longrightarrow> same_object y z \<Longrightarrow> same_object x z"
  by (cases x; cases y; cases z) auto

lemma parseChildren_same:
  "parseChildren cs x errs = (y, errs') \<Longrightarrow> same_object x y"
proof (induction cs arbitrary: x errs)
  case Nil
  then show ?case by (simp add: same_object_refl)
next
  case (Cons child rest)
  obtain r errs1 where p: "parseNode child errs = (r, errs1)"
    by (cases "parseNode child errs")
  show ?case
  proof (cases r)
    case (Inl e)
    with p Cons.prems have "parseChildren rest x (errs1 @ [caught child e]) = (y, errs')"
      by simp
    then show ?thesis by (rule Cons.IH)
  next
    case (Inr res)
    show ?thesis
    proof (cases res)
      case None
      with p Inr Cons.prems have "parseChildren rest x errs1 = (y, errs')" by simp
      then show ?thesis by (rule Cons.IH)
    next
      case (Some childComponent)
      show ?thesis
      proof (cases "call_addChild x childComponent")
        case (Inl e)
        with p Inr Some Cons.prems
        have "parseChildren rest x (errs1 @ [caught child e]) = (y, errs')" by simp
        then show ?thesis by (rule Cons.IH)
      next
        case (Inr x')
        with p \<open>r = Inr res\<close> Some Cons.prems
        have "parseChildren rest x' errs1 = (y, errs')" by simp
        then have "same_object x' y" by (rule Cons.IH)
        with call_addChild_same [OF Inr] show ?thesis by (rule same_object_trans)
      qed
    qed
  qed
qed

lemma COMPONENT_MAP_get_own:
  "COMPONENT_MAP_get ''button'' = Some NewButton"
  "COMPONENT_MAP_get ''input'' = Some NewInputField"
  "COMPONENT_MAP_get ''textbox'' = Some NewInputField"
  "COMPONENT_MAP_get ''nav'' = Some NewNavigationRegion"
  "COMPONENT_MAP_get ''navigation'' = Some NewNavigationRegion"
  by (simp_all add: COMPONENT_MAP_get_def COMPONENT_MAP_def)

lemma parseNode_input:
  assumes "truthy node" "typeof_object node" "getProp ''name'' node = JStr name"
    "truthy (getProp ''id'' node)" "matches name ''input''" "\<not> matches name ''button''"
  shows "\<exists>c. fst (parseNode node errs) = Inr (Some (Comp c))
    \<and> cls_of c = InputField (JStr ''text'') \<and> getRole c = JStr ''textbox''
    \<and> getId c = getProp ''id'' node \<and> getLabel c = JStr name"
proof -
  from assms(5) have ne: "name \<noteq> []" by (auto simp: matches_def toLowerCase_def)
  define c0 where "c0 = Component (InputField (JStr ''text'')) (getProp ''id'' node) (JStr name)
     (JStr ''textbox'') [(''focusable'', JBool True), (''required'', JBool False)] []"
  have f: "call_factory NewInputField node = Inr (Comp c0)"
    using assms ne by (simp add: InputField_new_def setState_def c0_def)
  have k: "resolveKey (getProp ''name'' node) = Inr ''input''"
    using assms by (simp add: resolveKey_string del: resolveKey.simps)
  show ?thesis
  proof (cases "\<exists>children. getProp ''children'' node = JArr children")
    case True
    then obtain children where ch: "getProp ''children'' node = JArr children" by blast
    obtain y errs' where p: "parseChildren children (Comp c0) errs = (y, errs')"
      by (cases "parseChildren children (Comp c0) errs")
    from parseChildren_same [OF p] obtain c where y: "y = Comp c"
      and s: "cls_of c = cls_of c0" "getId c = getId c0" "getLabel c = getLabel c0"
        "getRole c = getRole c0"
      by (cases y) auto
    have "fst (parseNode node errs) = Inr (Some (Comp c))"
      using assms(1,2) k f ch p y by (simp add: parseNode.simps COMPONENT_MAP_get_own)
    with s show ?thesis by (simp add: c0_def)
  next
    case False
    then have "fst (parseNode node errs) = Inr (Some (Comp c0))"
      using assms(1,2) k f
      by (cases "getProp ''children'' node") (simp_all add: parseNode.simps COMPONENT_MAP_get_own)
    then show ?thesis by (simp add: c0_def)
  qed
qed

lemma COMPONENT_MAP_get_None:
  assumes "\<forall>k \<in> set vocabulary. lower \<noteq> k" "lower \<noteq> ''constructor''" "lower \<noteq> ''__proto__''"
  shows "COMPONENT_MAP_get lower = None"
  using assms by (simp add: COMPONENT_MAP_get_def COMPONENT_MAP_def Object_prototype_def vocabulary_def)

lemma matches_self: "matches name (toLowerCase name)"
  unfolding matches_def by (rule exI [of _ "[]"], rule exI [of _ name], rule exI [of _ "[]"]) simp

lemma parseNode_unsupported:
  assumes "truthy node" "typeof_object node" "getProp ''name'' node = JStr name"
    "\<forall>k \<in> set vocabulary. \<not> matches name k"
    "toLowerCase name \<noteq> ''constructor''" "toLowerCase name \<noteq> ''__proto__''"
  shows "parseNode node errs =
     (Inr None,
      errs @ [\<lparr>nodeId = nullish (getProp ''id'' node) (JStr ''unknown''),
               message = ''Unsupported component type: '' @ dq @ name @ dq @ ''. Skipped.''\<rparr>])"
proof -
  have k: "resolveKey (getProp ''name'' node) = Inr (toLowerCase name)"
    using assms(3,4) by (simp add: resolveKey_string vocabulary_def del: resolveKey.simps)
  have "\<forall>k \<in> set vocabulary. toLowerCase name \<noteq> k"
    using assms(4) matches_self [of name] by auto
  then have "COMPONENT_MAP_get (toLowerCase name) = None"
    using assms(5,6) by (rule COMPONENT_MAP_get_None)
  with k assms(1,2,3) show ?thesis by (simp add: parseNode.simps)
qed

subsection \<open>The passes append to their output\<close>

declare traverse.simps [simp del] collect.simps [simp del] auditComponent.simps [simp del]

lemma fold_append_acc:
  assumes "\<And>x acc. x \<in> set xs \<Longrightarrow> f x acc = acc @ g x"
  shows "fold f xs acc = acc @ concat (map g xs)"
  using assms by (induction xs arbitrary: acc) auto

lemma traverse_append: "traverse x out = out @ traverse x []"
proof (induction x out rule: traverse.induct)
  case (1 component out)
  show ?case
  proof (cases "call_describe component")
    case (Inl e)
    then show ?thesis by (simp add: traverse.simps)
  next
    case (Inr line)
    note d = this
    show ?thesis
    proof (cases "call_getChildren component")
      case (Inl e)
      with d show ?thesis by (simp add: traverse.simps)
    next
      case (Inr children)
      have ih: "\<And>x acc. x \<in> set children \<Longrightarrow> traverse x acc = acc @ traverse x []"
        using "1.IH" [OF d Inr] by blast
      have "fold traverse children acc = acc @ concat (map (\<lambda>x. traverse x []) children)" for acc
        using ih by (rule fold_append_acc)
      from this [of "out @ [line]"] this [of "[line]"] d Inr
      show ?thesis by (simp add: traverse.simps [of component])
    qed
  qed
qed

lemma fold_traverse: "fold traverse es out = out @ reading es"
  unfolding reading_def by (rule fold_append_acc) (rule traverse_append)

lemma traverse_Comp:
  "traverse (Comp c) [] =
     (case describe c of
        Inl e \<Rightarrow> [screen_reader_error e]
      | Inr line \<Rightarrow> line # reading (map Comp (getChildren c)))"
  by (simp add: traverse.simps [of "Comp c"] fold_traverse split: sum.splits)

lemma collect_append: "collect x order = order @ collect x []"
proof (induction x order rule: collect.induct)
  case (1 component order)
  show ?case
  proof (cases "call_getState component ''focusable''")
    case (Inl e)
    then show ?thesis by (simp add: collect.simps)
  next
    case (Inr focusable)
    note f = this
    define step where "step ord = (if truthy focusable
                 then (case call_getLabel component of
                         Inl e \<Rightarrow> Inl e
                       | Inr l \<Rightarrow>
                           (case call_navigate component of
                              Inl e \<Rightarrow> Inl e
                            | Inr h \<Rightarrow> Inr (ord @ [\<lparr>label = l, hint = h\<rparr>])))
                 else Inr ord)" for ord :: "tab_entry list"
    have c: "collect component ord = (case step ord of
             Inl e \<Rightarrow> ord @ [navigation_error e]
           | Inr order' \<Rightarrow>
               (case call_getChildren component of
                  Inl e \<Rightarrow> order' @ [navigation_error e]
                | Inr children \<Rightarrow> fold collect children order'))" for ord
      using f by (simp add: collect.simps [of component] step_def)
    show ?thesis
    proof (cases "step []")
      case (Inl e)
      then have "step order = Inl e" by (auto simp: step_def split: if_splits sum.splits)
      with Inl show ?thesis by (simp add: c)
    next
      case (Inr entry)
      then have s: "step order = Inr (order @ entry)"
        by (auto simp: step_def split: if_splits sum.splits)
      show ?thesis
      proof (cases "call_getChildren component")
        case (Inl e)
        with Inr s show ?thesis by (simp add: c)
      next
        case (Inr children)
        have ih: "\<And>x acc. x \<in> set children \<Longrightarrow> collect x acc = acc @ collect x []"
          using "1.IH" [OF f s [unfolded step_def] Inr] by blast
        have "fold collect children acc = acc @ concat (map (\<lambda>x. collect x []) children)" for acc
          using ih by (rule fold_append_acc)
        from this [of "order @ entry"] this [of entry] \<open>step [] = Inr entry\<close> s Inr
        show ?thesis by (simp add: c)
      qed
    qed
  qed
qed

lemma fold_collect: "fold collect es order = order @ tab_order es"
  unfolding tab_order_def by (rule fold_append_acc) (rule collect_append)


lemma merge_no_entries [simp]: "merge res no_entries = res" "merge no_entries res = res"
  by (simp_all add: merge_def no_entries_def)

lemma merge_assoc: "merge (merge a b) c = merge a (merge b c)"
  by (simp add: merge_def)

lemma passed_merge [simp]: "passed (merge a b) = passed a @ passed b"
  and failed_merge [simp]: "failed (merge a b) = failed a @ failed b"
  by (simp_all add: merge_def)

lemma push_failed: "res\<lparr>failed := failed res @ [x]\<rparr> = merge res \<lparr>passed = [], failed = [x]\<rparr>"
  and push_passed: "res\<lparr>passed := passed res @ [x]\<rparr> = merge res \<lparr>passed = [x], failed = []\<rparr>"
  by (simp_all add: merge_def)

lemma fold_merge_acc:
  assumes "\<And>x res. x \<in> set xs \<Longrightarrow> f x res = merge res (g x)"
  shows "fold f xs res = merge res (foldr merge (map g xs) no_entries)"
  using assms by (induction xs arbitrary: res) (auto simp: merge_assoc)

lemma run_rules_merge:
  "run_rules rs x res =
     (fst (run_rules rs x no_entries), merge res (snd (run_rules rs x no_entries)))"
proof (induction rs arbitrary: res)
  case Nil
  then show ?case by simp
next
  case (Cons r rs)
  note ih = Cons.IH
  show ?case
  proof (cases "check r x")
    case (Inl e)
    then show ?thesis by simp
  next
    case (Inr issue)
    show ?thesis
    proof (cases "issue \<noteq> None \<and> issue \<noteq> Some []")
      case True
      with Inr show ?thesis
        using ih [of "res\<lparr>failed := failed res @ [failed_entry r (the issue)]\<rparr>"]
          ih [of "no_entries\<lparr>failed := failed no_entries @ [failed_entry r (the issue)]\<rparr>"]
        by (simp add: push_failed merge_assoc)
    next
      case False
      show ?thesis
      proof (cases "call_getLabel x")
        case (Inl e)
        with Inr False show ?thesis by auto
      next
        case (Inr l)
        with \<open>check r x = Inr issue\<close> False show ?thesis
          using ih [of "res\<lparr>passed := passed res @ [passed_entry r l]\<rparr>"]
            ih [of "no_entries\<lparr>passed := passed no_entries @ [passed_entry r l]\<rparr>"]
          by (auto simp add: push_passed merge_assoc)
      qed
    qed
  qed
qed

lemma auditComponent_merge: "auditComponent x res = merge res (auditComponent x no_entries)"
proof (induction x res rule: auditComponent.induct)
  case (1 component res)
  obtain err d where r0: "run_rules RULES component no_entries = (err, d)"
    by (cases "run_rules RULES component no_entries")
  then have r: "run_rules RULES component res = (err, merge res d)"
    using run_rules_merge [of RULES component res] by simp
  show ?case
  proof (cases err)
    case (Some e)
    with r r0 show ?thesis
      by (simp add: auditComponent.simps [of component] push_failed merge_assoc)
  next
    case None
    note n = this
    show ?thesis
    proof (cases "call_getChildren component")
      case (Inl e)
      with r r0 n show ?thesis
        by (simp add: auditComponent.simps [of component] push_failed merge_assoc)
    next
      case (Inr children)
      have "(None, merge res d) = run_rules RULES component res"
        using r n by simp
      note ih = "1.IH" [OF this refl Inr]
      have "fold auditComponent children acc
          = merge acc (foldr merge (map (\<lambda>x. auditComponent x no_entries) children) no_entries)" for acc
        using ih by (rule fold_merge_acc)
      from this [of "merge res d"] this [of d] r r0 n Inr
      show ?thesis by (simp add: auditComponent.simps [of component] merge_assoc)
    qed
  qed
qed

lemma fold_auditComponent: "fold auditComponent es res = merge res (audit es)"
  unfolding audit_def by (rule fold_merge_acc) (rule auditComponent_merge)

lemma audit_append: "audit (xs @ ys) = merge (audit xs) (audit ys)"
  by (induction xs) (simp_all add: audit_def merge_assoc)

subsection \<open>Tab order and audit of a forest\<close>

lemma preorder_unfold: "preorder c = c # forest (getChildren c)"
  by (cases c) (simp add: forest_def)

lemma forest_Cons: "forest (c # cs) = c # forest (getChildren c) @ forest cs"
  by (simp add: forest_def preorder_unfold)

lemma forest_Nil: "forest [] = []"
  by (simp add: forest_def)




lemma issue_not_empty: "r \<in> set RULES \<Longrightarrow> check r (Comp c) \<noteq> Inr (Some [])"
  by (auto simp: RULES_def Let_def split: jsval.splits if_splits)

lemma run_rules_returns:
  assumes "list_all (\<lambda>r. \<not> isl (check r (Comp c))) rs"
    and "\<And>r. r \<in> set rs \<Longrightarrow> check r (Comp c) \<noteq> Inr (Some [])"
  shows "run_rules rs (Comp c) res =
     (None,
      \<lparr>passed = passed res @
         concat (map (\<lambda>r. case check r (Comp c) of
                             Inr None \<Rightarrow> [''['' @ rule_id r @ ''] '' @ dq @ toStr (getLabel c) @ dq
                                            @ '' passed.'']
                           | _ \<Rightarrow> []) rs),
       failed = failed res @
         concat (map (\<lambda>r. case check r (Comp c) of
                             Inr (Some issue) \<Rightarrow> [''['' @ rule_id r @ ''] '' @ issue]
                           | _ \<Rightarrow> []) rs)\<rparr>)"
  using assms
proof (induction rs arbitrary: res)
  case Nil
  then show ?case by simp
next
  case (Cons r rs)
  from Cons.prems(1) obtain issue where i: "check r (Comp c) = Inr issue"
    by (cases "check r (Comp c)") auto
  have ne: "issue \<noteq> Some []" using Cons.prems(2) [of r] i by auto
  have rest: "list_all (\<lambda>r. \<not> isl (check r (Comp c))) rs" using Cons.prems(1) by simp
  note ih = Cons.IH [OF rest Cons.prems(2)]
  show ?case
  proof (cases issue)
    case None
    with i show ?thesis
      using ih [of "res\<lparr>passed := passed res @ [passed_entry r (getLabel c)]\<rparr>"]
      by (simp add: passed_entry_def)
  next
    case (Some s)
    with i ne show ?thesis
      using ih [of "res\<lparr>failed := failed res @ [failed_entry r s]\<rparr>"]
      by (simp add: failed_entry_def)
  qed
qed

lemma run_rules_RULES:
  assumes "checks_return c"
  shows "run_rules RULES (Comp c) no_entries
     = (None, \<lparr>passed = rule_passes c, failed = rule_failures c\<rparr>)"
  using run_rules_returns [of c RULES no_entries] assms issue_not_empty [of _ c]
  by (simp add: checks_return_def rule_passes_def rule_failures_def no_entries_def)

lemma one_entry_per_rule:
  assumes "list_all (\<lambda>r. \<not> isl (check r (Comp c))) rs"
  shows "length (concat (map (\<lambda>r. case check r (Comp c) of
                             Inr None \<Rightarrow> [p r]
                           | _ \<Rightarrow> []) rs))
       + length (concat (map (\<lambda>r. case check r (Comp c) of
                             Inr (Some issue) \<Rightarrow> [f r issue]
                           | _ \<Rightarrow> []) rs)) = length rs"
  using assms by (induction rs) (auto split: sum.splits option.splits)

lemma length_RULES: "length RULES = 3"
  by (simp add: RULES_def)

lemma three_entries:
  assumes "checks_return c"
  shows "length (rule_passes c) + length (rule_failures c) = 3"
proof -
  have "list_all (\<lambda>r. \<not> isl (check r (Comp c))) RULES"
    using assms by (simp only: checks_return_def)
  from one_entry_per_rule [OF this] show ?thesis
    unfolding rule_passes_def rule_failures_def length_RULES .
qed

lemma entries_Nil: "entries [] = no_entries"
  and entries_append: "entries (xs @ ys) = merge (entries xs) (entries ys)"
  and entries_Cons: "entries (x # xs) = merge \<lparr>passed = rule_passes x, failed = rule_failures x\<rparr> (entries xs)"
  by (simp_all add: entries_def no_entries_def merge_def)

lemma audit_Nil: "audit [] = no_entries"
  and audit_Cons: "audit (x # xs) = merge (auditComponent x no_entries) (audit xs)"
  by (simp_all add: audit_def)

lemma audit_forest:
  "list_all checks_return (forest cs) \<Longrightarrow> audit (map Comp cs) = entries (forest cs)"
proof (induction cs rule: measure_induct_rule [where f = "size_list size"])
  case (less cs)
  show ?case
  proof (cases cs)
    case Nil
    then show ?thesis by (simp add: audit_Nil forest_Nil entries_Nil)
  next
    case (Cons c rest)
    have ok_c: "checks_return c"
      and ok_ch: "list_all checks_return (forest (getChildren c))"
      and ok_rest: "list_all checks_return (forest rest)"
      using less.prems Cons by (simp_all add: forest_Cons)
    have "size_list size (getChildren c) < size_list size cs"
      using Cons by (cases c) simp
    then have ch: "audit (map Comp (getChildren c)) = entries (forest (getChildren c))"
      using ok_ch by (rule less.IH)
    have "size_list size rest < size_list size cs" using Cons by simp
    then have rest: "audit (map Comp rest) = entries (forest rest)"
      using ok_rest by (rule less.IH)
    have c: "auditComponent (Comp c) no_entries
        = merge \<lparr>passed = rule_passes c, failed = rule_failures c\<rparr>
            (audit (map Comp (getChildren c)))"
      using run_rules_RULES [OF ok_c]
      by (simp add: auditComponent.simps [of "Comp c"] fold_auditComponent)
    show ?thesis
      using Cons c ch rest
      by (simp add: audit_Cons forest_Cons entries_Cons entries_append merge_assoc)
  qed
qed

lemma length_entries:
  "list_all checks_return cs \<Longrightarrow>
     length (passed (entries cs)) + length (failed (entries cs)) = 3 * length cs"
proof (induction cs)
  case Nil
  then show ?case by (simp add: entries_def)
next
  case (Cons c cs)
  then show ?case using three_entries [of c] by (simp add: entries_Cons)
qed

lemma runAudit_forest:
  assumes "list_all checks_return (forest roots)"
  shows "runAudit (Array (map Comp roots)) = Inr (entries (forest roots))"
  using audit_forest [OF assms]
  by (simp add: runAudit_def fold_auditComponent no_entries_def [symmetric])

subsection \<open>Constructors and methods\<close>

lemma Button_new_Inr:
  "Button_new i l = Inr c \<Longrightarrow>
     truthy i \<and> truthy l \<and>
     c = Component Button i l (JStr ''button'')
           [(''focusable'', JBool True), (''disabled'', JBool False)] []"
  by (auto simp: Button_new_def setState_def split: if_splits)

lemma InputField_new_Inr:
  "InputField_new i l t = Inr c \<Longrightarrow>
     truthy i \<and> truthy l \<and>
     c = Component (InputField (if t = JUndefined then JStr ''text'' else t)) i l (JStr ''textbox'')
           [(''focusable'', JBool True), (''required'', JBool False)] []"
  by (auto simp: InputField_new_def setState_def split: if_splits)

lemma NavigationRegion_new_Inr:
  "NavigationRegion_new i l = Inr c \<Longrightarrow>
     truthy i \<and> truthy l \<and>
     c = Component NavigationRegion i l (JStr ''navigation'') [(''expanded'', JBool True)] []"
  by (auto simp: NavigationRegion_new_def setState_def split: if_splits)

lemma Derived_new_Inr:
  "Derived_new name i l r = Inr c \<Longrightarrow>
     truthy i \<and> truthy l \<and> truthy r \<and> c = Component (Derived name) i l r [] []"
  by (auto simp: Derived_new_def split: if_splits)

lemma setState_fields [simp]:
  "cls_of (setState key val c) = cls_of c"
  "getId (setState key val c) = getId c"
  "getLabel (setState key val c) = getLabel c"
  "getRole (setState key val c) = getRole c"
  "getChildren (setState key val c) = getChildren c"
  by (simp_all add: setState_def)

lemma constructor_nonempty:
  "Button_new i l = Inr c \<Longrightarrow> nonempty c \<and> getChildren c = [] \<and> getRole c = JStr ''button''"
  "InputField_new i l t = Inr c \<Longrightarrow> nonempty c \<and> getChildren c = [] \<and> getRole c = JStr ''textbox''"
  "NavigationRegion_new i l = Inr c \<Longrightarrow>
     nonempty c \<and> getChildren c = [] \<and> getRole c = JStr ''navigation''"
  "Derived_new name i l r = Inr c \<Longrightarrow> nonempty c \<and> getChildren c = []"
  by (auto simp: nonempty_def dest!: Button_new_Inr InputField_new_Inr NavigationRegion_new_Inr
      Derived_new_Inr)

lemma constructor_raises:
  assumes "\<not> truthy i \<or> \<not> truthy l"
  shows "isl (Button_new i l)" "isl (InputField_new i l t)" "isl (NavigationRegion_new i l)"
  using assms
  by (auto simp: Button_new_def InputField_new_def NavigationRegion_new_def Let_def)

lemma apply_op_fields:
  assumes "apply_op op c = Inr c'"
  shows "getId c' = getId c" and "getRole c' = getRole c"
    and "truthy (getLabel c) \<Longrightarrow> truthy (getLabel c')"
proof -
  show "getId c' = getId c" "getRole c' = getRole c"
    using assms
    by (cases op; cases "cls_of c";
        auto simp: setLabel_def split: if_splits elem.splits elim: addChild.elims)+
  show "truthy (getLabel c) \<Longrightarrow> truthy (getLabel c')"
    using assms
    by (cases op; cases "cls_of c";
        auto simp: setLabel_def split: if_splits elem.splits elim: addChild.elims)
qed

lemma apply_op_children:
  assumes "apply_op op c = Inr c'"
  shows "(\<exists>k. op = AddChild (Comp k) \<and> getChildren c' = getChildren c @ [k])
       \<or> ((\<forall>k. op \<noteq> AddChild (Comp k)) \<and> getChildren c' = getChildren c)"
  using assms
  by (cases op; cases "cls_of c";
      auto simp: setLabel_def split: if_splits elem.splits elim: addChild.elims)

lemma all_nonempty_unfold:
  "all_nonempty c \<longleftrightarrow> nonempty c \<and> list_all all_nonempty (getChildren c)"
proof -
  have "list_all nonempty (forest cs) = list_all all_nonempty cs" for cs
    by (induction cs) (simp_all add: forest_def all_nonempty_def)
  then show ?thesis by (simp add: all_nonempty_def preorder_unfold [of c])
qed

lemma constructed_all_nonempty: "constructed c \<Longrightarrow> all_nonempty c"
proof (induction rule: constructed.induct)
  case (by_method c op c')
  from by_method.IH(1) have c: "nonempty c" "list_all all_nonempty (getChildren c)"
    by (simp_all add: all_nonempty_unfold [of c])
  have n: "nonempty c'"
    using apply_op_fields [OF by_method.hyps(2)] c(1) by (simp add: nonempty_def)
  from apply_op_children [OF by_method.hyps(2)]
  have "list_all all_nonempty (getChildren c')"
  proof
    assume "\<exists>k. op = AddChild (Comp k) \<and> getChildren c' = getChildren c @ [k]"
    then obtain k where k: "op = AddChild (Comp k)" "getChildren c' = getChildren c @ [k]"
      by blast
    from by_method.IH(2) [OF k(1)] have "all_nonempty k" .
    with c(2) k(2) show ?thesis by simp
  next
    assume "(\<forall>k. op \<noteq> AddChild (Comp k)) \<and> getChildren c' = getChildren c"
    with c(2) show ?thesis by simp
  qed
  with n show ?case by (simp add: all_nonempty_unfold [of c'])
qed (auto simp: all_nonempty_unfold dest: constructor_nonempty)

subsection \<open>The store\<close>

lemma elements_alloc_old [simp]: "a < length s \<Longrightarrow> elements (s @ [xs]) a = elements s a"
  by (simp add: elements_def nth_append)

lemma elements_alloc_new [simp]: "elements (s @ [xs]) (length s) = xs"
  by (simp add: elements_def)

lemma elements_mutate_other [simp]: "a \<noteq> b \<Longrightarrow> elements (mutate a xs s) b = elements s b"
  by (simp add: elements_def mutate_def)

lemma elements_mutate_same [simp]: "a < length s \<Longrightarrow> elements (mutate a xs s) a = xs"
  by (simp add: elements_def mutate_def)

lemma length_mutate [simp]: "length (mutate a xs s) = length s"
  by (simp add: mutate_def)

lemma observe_getRoots: "allocated s (roots_ref t) \<Longrightarrow> observe_getRoots t s = elements s (roots_ref t)"
  by (simp add: observe_getRoots_def getRoots_ref_def alloc_def allocated_def)

lemma observe_getErrors:
  "allocated s (errors_ref t) \<Longrightarrow> observe_getErrors t s = elements s (errors_ref t)"
  by (simp add: observe_getErrors_def getErrors_ref_def alloc_def allocated_def)

lemma observe_toJSON:
  "allocated s (errors_ref t) \<Longrightarrow>
     observe_toJSON t s =
       (case map_item_toAuditObject (elements s (roots_ref t)) of
          Inl e \<Rightarrow> Inl e
        | Inr objs \<Rightarrow> Inr (map AuditItem objs, elements s (errors_ref t)))"
  by (simp add: observe_toJSON_def toJSON_ref_def alloc_def allocated_def split: sum.splits)

lemma toJSON_errors_is_shared:
  assumes "allocated s (errors_ref t)" and "toJSON_ref t s = (Inr (components, errs), s')"
  shows "observe_getErrors t (mutate errs xs s') = xs"
proof -
  from assms(2) have e: "errs = errors_ref t" and l: "length s' = Suc (length s)"
    by (auto simp: toJSON_ref_def alloc_def split: sum.splits)
  from assms(1) l have "errors_ref t < length s'" by (simp add: allocated_def)
  then have "allocated (mutate errs xs s') (errors_ref t)"
    and "elements (mutate errs xs s') (errors_ref t) = xs"
    using e by (simp_all add: allocated_def)
  then show ?thesis by (simp add: observe_getErrors)
qed

subsection \<open>Every node and every element is answered\<close>




lemma generateReadingOrder_Array: "generateReadingOrder (Array es) = Inr (reading es)"
  by (simp add: generateReadingOrder_def fold_traverse)

lemma buildTabOrder_Array: "buildTabOrder (Array es) = Inr (tab_order es)"
  by (simp add: buildTabOrder_def fold_collect)

lemma runAudit_Array: "runAudit (Array es) = Inr (audit es)"
  by (simp add: runAudit_def fold_auditComponent no_entries_def [symmetric])







lemma build_ref_agrees:
  assumes "build_ref t s (JArr ns) = (r, t', s')"
  shows "allocated s' (roots_ref t') \<and> allocated s' (errors_ref t')
    \<and> observe_getRoots t' s' = map ElemItem (getRoots (snd (build v (JArr ns))))
    \<and> observe_getErrors t' s' = map ErrorItem (getErrors (snd (build v (JArr ns))))"
proof -
  from assms have a: "allocated s' (roots_ref t')" "allocated s' (errors_ref t')"
    and e: "elements s' (roots_ref t')
        = map ElemItem (the_roots (build_loop ns \<lparr>the_roots = [], the_errors = []\<rparr>))"
      "elements s' (errors_ref t')
        = map ErrorItem (the_errors (build_loop ns \<lparr>the_roots = [], the_errors = []\<rparr>))"
    by (auto simp: build_ref_def alloc_def allocated_def elements_def Let_def nth_append)
  then show ?thesis
    by (simp add: observe_getRoots observe_getErrors build_array getRoots_def getErrors_def)
qed


section \<open>The claims\<close>

subsection \<open>Unsupported nodes\<close>

text \<open>
  C1. For every raw node whose name matches no entry of the classification vocabulary,
  \<open>build\<close> should record exactly one Parse Error naming the unsupported type and the raw
  name, produce no component for the node and leave its subtree unvisited. Lemma
  \<open>parseNode_unsupported\<close> shows that for every name but two. The code fails the claim at
  the names that lower-case to \<open>constructor\<close> or \<open>__proto__\<close>: no vocabulary entry occurs in
  them, yet \<open>COMPONENT_MAP[key]\<close> finds an inherited property. For \<open>constructor\<close> the raw
  node itself becomes a root, no Parse Error is recorded for it, and its child is parsed
  (and then rejected by the missing \<open>addChild\<close>). For \<open>__proto__\<close> the one Parse Error names
  neither the type nor the node's name.
\<close>

theorem constructor_named_node_becomes_root:
  "list_all (\<lambda>key. \<not> includes_str (toLowerCase ''constructor'') key) (map fst COMPONENT_MAP)
   \<and> resolveKey (JStr ''constructor'') = Inr ''constructor''
   \<and> build SemanticTree_new (JArr [constructor_node])
       = (Inr (),
          \<lparr>the_roots = [Raw constructor_node],
           the_errors =
             [\<lparr>nodeId = JStr ''b1'', message = ''component.addChild is not a function''\<rparr>]\<rparr>)
   \<and> build SemanticTree_new (JArr [proto_node])
       = (Inr (),
          \<lparr>the_roots = [],
           the_errors = [\<lparr>nodeId = JStr ''x2'', message = ''factory is not a function''\<rparr>]\<rparr>)"
  by code_simp

subsection \<open>A component that fails during a pass\<close>

text \<open>
  C2 as stated: when a per-component error is raised during one of the three passes, the
  pass puts one placeholder in place of the component's output and goes on into the
  component's children, whose entries still appear. That fails: the loop over the children
  stands inside the same \<open>try\<close> block, so the \<open>catch\<close> skips it. The \<open>Card\<close> holds a button
  whose line the reading order lacks, and the audit of a region whose label is a number
  holds nothing for the button below it.
\<close>

theorem failing_parent_hides_children:
  "getChildren card = [sample_button]
   \<and> describe sample_button
       = Inr (''Button: '' @ dq @ ''Submit Button'' @ dq @ ''. Press Enter or Space to activate.'')
   \<and> generateReadingOrder (Array [Comp card])
       = Inr [''[Screen reader error for component: describe() must be implemented by Card]'']
   \<and> NavigationRegion_new (JStr ''n1'') (JNum 5)
       = Inr (Component NavigationRegion (JStr ''n1'') (JNum 5) (JStr ''navigation'')
                [(''expanded'', JBool True)] [])
   \<and> getChildren numbered_nav = [sample_button]
   \<and> runAudit (Array [Comp numbered_nav])
       = Inr \<lparr>passed = [],
              failed = [''[AUDIT_ERROR] Unexpected error auditing component: ''
                          @ ''c.getLabel(...).trim is not a function'']\<rparr>"
  by code_simp

text \<open>
  C2 as amended: when a per-component error is raised at a component during one of the
  three passes, the pass appends a single placeholder for that component (in the audit,
  after the entries of the rules that were checked before the failing one), visits none of
  its children, and goes on with the siblings that follow it. Here \<open>before\<close> and \<open>after\<close>
  are the siblings around the component, roots or children alike, and what the pass
  appends for them does not depend on the failure.
\<close>

theorem failing_component_subtree_skipped:
  "(describe c = Inl e \<longrightarrow>
      traverse (Comp c) out = out @ [screen_reader_error e]
      \<and> generateReadingOrder (Array (before @ Comp c # after))
          = Inr (reading before @ [screen_reader_error e] @ reading after))
   \<and> (focusable c \<and> navigate c = Inl e \<longrightarrow>
      collect (Comp c) order = order @ [navigation_error e]
      \<and> buildTabOrder (Array (before @ Comp c # after))
          = Inr (tab_order before @ [navigation_error e] @ tab_order after))
   \<and> (run_rules RULES (Comp c) no_entries = (Some e, partial) \<longrightarrow>
      auditComponent (Comp c) res
        = merge res (merge partial \<lparr>passed = [], failed = [audit_error e]\<rparr>)
      \<and> runAudit (Array (before @ Comp c # after))
          = Inr (merge (audit before)
                   (merge partial
                      (merge \<lparr>passed = [], failed = [audit_error e]\<rparr> (audit after)))))"
proof (intro conjI impI)
  assume d: "describe c = Inl e"
  then show t: "traverse (Comp c) out = out @ [screen_reader_error e]"
    by (simp add: traverse.simps [of "Comp c"] del: describe.simps)
  from d have "traverse (Comp c) [] = [screen_reader_error e]"
    by (simp add: traverse.simps [of "Comp c"] del: describe.simps)
  then show "generateReadingOrder (Array (before @ Comp c # after))
      = Inr (reading before @ [screen_reader_error e] @ reading after)"
    by (simp add: generateReadingOrder_Array reading_def)
next
  assume n: "focusable c \<and> navigate c = Inl e"
  then have c: "collect (Comp c) acc = acc @ [navigation_error e]" for acc
    by (simp add: collect.simps [of "Comp c"] focusable_def del: navigate.simps)
  from c show "collect (Comp c) order = order @ [navigation_error e]" .
  from c [of "[]"] show "buildTabOrder (Array (before @ Comp c # after))
      = Inr (tab_order before @ [navigation_error e] @ tab_order after)"
    by (simp add: buildTabOrder_Array tab_order_def)
next
  assume r: "run_rules RULES (Comp c) no_entries = (Some e, partial)"
  have a: "auditComponent (Comp c) acc
      = merge acc (merge partial \<lparr>passed = [], failed = [audit_error e]\<rparr>)" for acc
    using r run_rules_merge [of RULES "Comp c" acc]
    by (simp add: auditComponent.simps [of "Comp c"] push_failed merge_assoc)
  from a show "auditComponent (Comp c) res
      = merge res (merge partial \<lparr>passed = [], failed = [audit_error e]\<rparr>)" .
  from a [of no_entries] show "runAudit (Array (before @ Comp c # after))
      = Inr (merge (audit before)
               (merge partial (merge \<lparr>passed = [], failed = [audit_error e]\<rparr> (audit after))))"
    by (simp add: runAudit_Array audit_append audit_Cons merge_assoc)
qed

theorem failing_component_subtree_skipped_witness:
  "describe card = Inl (Error ''describe() must be implemented by Card'')
   \<and> generateReadingOrder (Array [Comp home_button, Comp card, Comp sample_button])
       = Inr [''Button: '' @ dq @ ''Home'' @ dq @ ''. Press Enter or Space to activate.'',
              ''[Screen reader error for component: describe() must be implemented by Card]'',
              ''Button: '' @ dq @ ''Submit Button'' @ dq @ ''. Press Enter or Space to activate.'']
   \<and> focusable panel
   \<and> navigate panel = Inl (Error ''navigate() must be implemented by Panel'')
   \<and> buildTabOrder (Array [Comp panel, Comp home_button])
       = Inr [\<lparr>label = JStr ''unknown'',
               hint = ''[Navigation error: navigate() must be implemented by Panel]''\<rparr>,
              \<lparr>label = JStr ''Home'',
               hint = ''Tab to focus '' @ dq @ ''Home'' @ dq @ '' button. Enter or Space to click.''\<rparr>]
   \<and> run_rules RULES (Comp numbered_nav) no_entries
       = (Some (TypeError ''c.getLabel(...).trim is not a function''), no_entries)
   \<and> runAudit (Array [Comp numbered_nav, Comp home_button])
       = Inr \<lparr>passed = [''[LABEL_EMPTY] '' @ dq @ ''Home'' @ dq @ '' passed.'',
                        ''[ROLE_PRESENT] '' @ dq @ ''Home'' @ dq @ '' passed.'',
                        ''[FOCUSABLE_BUTTON] '' @ dq @ ''Home'' @ dq @ '' passed.''],
              failed = [''[AUDIT_ERROR] Unexpected error auditing component: ''
                          @ ''c.getLabel(...).trim is not a function'']\<rparr>"
proof -
  have d: "describe card = Inl (Error ''describe() must be implemented by Card'')"
    by code_simp
  have n: "focusable panel \<and> navigate panel = Inl (Error ''navigate() must be implemented by Panel'')"
    by code_simp
  have r: "run_rules RULES (Comp numbered_nav) no_entries
      = (Some (TypeError ''c.getLabel(...).trim is not a function''), no_entries)"
    by code_simp
  have e1: "reading [Comp home_button]
      = [''Button: '' @ dq @ ''Home'' @ dq @ ''. Press Enter or Space to activate.'']"
    by code_simp
  have e2: "reading [Comp sample_button]
      = [''Button: '' @ dq @ ''Submit Button'' @ dq @ ''. Press Enter or Space to activate.'']"
    by code_simp
  have e3: "tab_order [Comp home_button]
      = [\<lparr>label = JStr ''Home'',
          hint = ''Tab to focus '' @ dq @ ''Home'' @ dq @ '' button. Enter or Space to click.''\<rparr>]"
    by code_simp
  have e4: "audit [Comp home_button]
      = \<lparr>passed = [''[LABEL_EMPTY] '' @ dq @ ''Home'' @ dq @ '' passed.'',
                    ''[ROLE_PRESENT] '' @ dq @ ''Home'' @ dq @ '' passed.'',
                    ''[FOCUSABLE_BUTTON] '' @ dq @ ''Home'' @ dq @ '' passed.''],
          failed = []\<rparr>"
    by code_simp
  have e5: "reading [] = []" "tab_order [] = []" "audit [] = no_entries"
    by (simp_all add: reading_def tab_order_def audit_def)
  note t = failing_component_subtree_skipped
  have 1: "generateReadingOrder (Array [Comp home_button, Comp card, Comp sample_button])
      = Inr (reading [Comp home_button]
               @ [screen_reader_error (Error ''describe() must be implemented by Card'')]
               @ reading [Comp sample_button])"
    using t [of card "Error ''describe() must be implemented by Card''" "[]"
        "[Comp home_button]" "[Comp sample_button]"] d
    by simp
  have 2: "buildTabOrder (Array [Comp panel, Comp home_button])
      = Inr (tab_order []
               @ [navigation_error (Error ''navigate() must be implemented by Panel'')]
               @ tab_order [Comp home_button])"
    using t [of panel "Error ''navigate() must be implemented by Panel''" "[]"
        "[]" "[Comp home_button]"] n
    by simp
  have 3: "runAudit (Array [Comp numbered_nav, Comp home_button])
      = Inr (merge (audit [])
               (merge no_entries
                  (merge \<lparr>passed = [],
                           failed = [audit_error
                             (TypeError ''c.getLabel(...).trim is not a function'')]\<rparr>
                     (audit [Comp home_button]))))"
    using t [of numbered_nav "TypeError ''c.getLabel(...).trim is not a function''" "[]"
        "[]" "[Comp home_button]" _ no_entries] r
    by simp
  show ?thesis
    using d n r 1 2 3
    by (simp add: e1 e2 e3 e4 e5 screen_reader_error_def navigation_error_def audit_error_def
        merge_def no_entries_def)
qed

subsection \<open>What crosses an entry point\<close>



subsection \<open>Tab order\<close>




subsection \<open>Classification\<close>

text \<open>
  C5. The key of a raw node is found by a substring match of its name, letter case
  ignored, against the vocabulary in the fixed order \<open>button\<close>, \<open>input\<close>, \<open>textbox\<close>, \<open>nav\<close>,
  \<open>navigation\<close>; when several entries occur in the name the first in that order wins, so
  the key is a function of the name (an absent name counts as the empty name). A node
  whose name holds \<open>input\<close> (and no \<open>button\<close>, which comes first) becomes an \<open>InputField\<close>
  whether or not the name holds \<open>nav\<close> as well.
\<close>

theorem classification_first_match_wins:
  "map fst COMPONENT_MAP = vocabulary
   \<and> resolveKey (JStr name) =
       Inr (if matches name ''button'' then ''button''
            else if matches name ''input'' then ''input''
            else if matches name ''textbox'' then ''textbox''
            else if matches name ''nav'' then ''nav''
            else if matches name ''navigation'' then ''navigation''
            else toLowerCase name)
   \<and> resolveKey JUndefined = resolveKey (JStr [])
   \<and> (truthy node \<and> typeof_object node \<and> getProp ''name'' node = JStr name
        \<and> truthy (getProp ''id'' node) \<and> matches name ''input'' \<and> \<not> matches name ''button''
      \<longrightarrow> (\<exists>c. fst (parseNode node errs) = Inr (Some (Comp c))
             \<and> cls_of c = InputField (JStr ''text'') \<and> getRole c = JStr ''textbox''
             \<and> getId c = getProp ''id'' node \<and> getLabel c = JStr name))"
proof -
  have "map fst COMPONENT_MAP = vocabulary"
    by (simp add: COMPONENT_MAP_def vocabulary_def)
  moreover have "resolveKey JUndefined = resolveKey (JStr [])"
    by simp
  ultimately show ?thesis
    using resolveKey_string [of name] parseNode_input [of node name errs] by blast
qed

theorem classification_first_match_wins_witness:
  "matches ''Nav Input'' ''input'' \<and> matches ''Nav Input'' ''nav''
   \<and> \<not> matches ''Nav Input'' ''button''
   \<and> resolveKey (JStr ''Nav Input'') = Inr ''input''
   \<and> (\<exists>c. fst (parseNode nav_input_node []) = Inr (Some (Comp c))
          \<and> cls_of c = InputField (JStr ''text'') \<and> getRole c = JStr ''textbox''
          \<and> getId c = JStr ''i1'' \<and> getLabel c = JStr ''Nav Input'')"
proof -
  have m: "matches ''Nav Input'' ''input''" "matches ''Nav Input'' ''nav''"
    "\<not> matches ''Nav Input'' ''button''"
    unfolding matches_iff by code_simp+
  have n: "truthy nav_input_node" "typeof_object nav_input_node"
    "getProp ''name'' nav_input_node = JStr ''Nav Input''"
    "getProp ''id'' nav_input_node = JStr ''i1''"
    by (simp_all add: nav_input_node_def)
  note t = classification_first_match_wins [of "''Nav Input''" nav_input_node "[]"]
  from t m have k: "resolveKey (JStr ''Nav Input'') = Inr ''input''"
    by (simp del: resolveKey.simps)
  from t m n have "\<exists>c. fst (parseNode nav_input_node []) = Inr (Some (Comp c))
      \<and> cls_of c = InputField (JStr ''text'') \<and> getRole c = JStr ''textbox''
      \<and> getId c = JStr ''i1'' \<and> getLabel c = JStr ''Nav Input''"
    by (simp del: resolveKey.simps)
  with m k show ?thesis by blast
qed

subsection \<open>Audit\<close>

text \<open>
  C6. For every forest of N components on which no rule check throws, \<open>runAudit\<close> appends
  exactly one entry for each pair of a component and a rule: to \<open>passed\<close> the line
  \<open>[ruleId] "<label>" passed.\<close>, or to \<open>failed\<close> the line \<open>[ruleId] <issue>\<close>. The two lists
  hold 3 N entries together, the components in pre-order and, for each component, the rules
  in the order \<open>LABEL_EMPTY\<close>, \<open>ROLE_PRESENT\<close>, \<open>FOCUSABLE_BUTTON\<close>.
\<close>

theorem audit_one_entry_per_component_and_rule:
  assumes "list_all checks_return (forest roots)"
  shows "runAudit (Array (map Comp roots))
       = Inr \<lparr>passed = concat (map rule_passes (forest roots)),
              failed = concat (map rule_failures (forest roots))\<rparr>
    \<and> length (concat (map rule_passes (forest roots)))
        + length (concat (map rule_failures (forest roots))) = 3 * length (forest roots)
    \<and> list_all (\<lambda>c. length (rule_passes c) + length (rule_failures c) = 3) (forest roots)
    \<and> map rule_id RULES = [''LABEL_EMPTY'', ''ROLE_PRESENT'', ''FOCUSABLE_BUTTON'']"
proof -
  have "list_all checks_return cs \<Longrightarrow>
      list_all (\<lambda>c. length (rule_passes c) + length (rule_failures c) = 3) cs" for cs
    by (induction cs) (simp_all add: three_entries)
  moreover have "map rule_id RULES = [''LABEL_EMPTY'', ''ROLE_PRESENT'', ''FOCUSABLE_BUTTON'']"
    by (simp add: RULES_def)
  ultimately show ?thesis
    using runAudit_forest [OF assms] length_entries [OF assms] assms
    by (simp add: entries_def)
qed

theorem audit_one_entry_per_component_and_rule_witness:
  "list_all checks_return (forest [side_nav])
   \<and> length (forest [side_nav]) = 3
   \<and> runAudit (Array [Comp side_nav])
       = Inr \<lparr>passed = [''[LABEL_EMPTY] '' @ dq @ ''Side Nav'' @ dq @ '' passed.'',
                        ''[ROLE_PRESENT] '' @ dq @ ''Side Nav'' @ dq @ '' passed.'',
                        ''[FOCUSABLE_BUTTON] '' @ dq @ ''Side Nav'' @ dq @ '' passed.'',
                        ''[LABEL_EMPTY] '' @ dq @ ''Submit Button'' @ dq @ '' passed.'',
                        ''[ROLE_PRESENT] '' @ dq @ ''Submit Button'' @ dq @ '' passed.'',
                        ''[FOCUSABLE_BUTTON] '' @ dq @ ''Submit Button'' @ dq @ '' passed.'',
                        ''[LABEL_EMPTY] '' @ dq @ ''Cancel'' @ dq @ '' passed.'',
                        ''[ROLE_PRESENT] '' @ dq @ ''Cancel'' @ dq @ '' passed.''],
              failed = [''[FOCUSABLE_BUTTON] Button '' @ dq @ ''Cancel'' @ dq
                          @ '' [b3] is not marked as focusable.'']\<rparr>"
proof -
  have h: "list_all checks_return (forest [side_nav])"
    by code_simp
  have l: "length (forest [side_nav]) = 3"
    by code_simp
  have p: "concat (map rule_passes (forest [side_nav]))
      = [''[LABEL_EMPTY] '' @ dq @ ''Side Nav'' @ dq @ '' passed.'',
         ''[ROLE_PRESENT] '' @ dq @ ''Side Nav'' @ dq @ '' passed.'',
         ''[FOCUSABLE_BUTTON] '' @ dq @ ''Side Nav'' @ dq @ '' passed.'',
         ''[LABEL_EMPTY] '' @ dq @ ''Submit Button'' @ dq @ '' passed.'',
         ''[ROLE_PRESENT] '' @ dq @ ''Submit Button'' @ dq @ '' passed.'',
         ''[FOCUSABLE_BUTTON] '' @ dq @ ''Submit Button'' @ dq @ '' passed.'',
         ''[LABEL_EMPTY] '' @ dq @ ''Cancel'' @ dq @ '' passed.'',
         ''[ROLE_PRESENT] '' @ dq @ ''Cancel'' @ dq @ '' passed.'']"
    by code_simp
  have f: "concat (map rule_failures (forest [side_nav]))
      = [''[FOCUSABLE_BUTTON] Button '' @ dq @ ''Cancel'' @ dq
           @ '' [b3] is not marked as focusable.'']"
    by code_simp
  from audit_one_entry_per_component_and_rule [OF h] h l show ?thesis
    by (simp add: p f)
qed

subsection \<open>The builder's stored result\<close>

text \<open>
  C7. When \<open>build\<close> is called with an argument that is not an array it throws at once, and
  the builder is as it was: \<open>getRoots()\<close>, \<open>getErrors()\<close> and \<open>toJSON()\<close> give afterwards what
  they gave before the call.
\<close>

theorem build_non_array_keeps_result:
  assumes "\<not> isArray nodes"
  shows "build t nodes = (Inl (TypeError ''SemanticTree.build() expects an array of nodes.''), t)
    \<and> getRoots (snd (build t nodes)) = getRoots t
    \<and> getErrors (snd (build t nodes)) = getErrors t
    \<and> toJSON (snd (build t nodes)) = toJSON t"
  using assms by (cases nodes) (simp_all add: build_def)

theorem build_non_array_keeps_result_witness:
  "\<not> isArray JNull
   \<and> build sample_tree JNull
       = (Inl (TypeError ''SemanticTree.build() expects an array of nodes.''), sample_tree)
   \<and> getRoots (snd (build sample_tree JNull)) = [Comp sample_button]
   \<and> getErrors (snd (build sample_tree JNull)) = [sample_error]"
  using build_non_array_keeps_result [of JNull sample_tree]
  by (simp add: getRoots_def getErrors_def sample_tree_def)

text \<open>
  C8. Building twice from the same array of raw nodes gives the same serialized result:
  the \<open>toAuditObject()\<close> values of the roots, the error list and \<open>toJSON()\<close> are equal after
  the first and after the second call, whatever the builder held before.
\<close>

theorem build_twice_same_shape:
  "map call_toAuditObject (getRoots (snd (build (snd (build t (JArr ns))) (JArr ns))))
     = map call_toAuditObject (getRoots (snd (build t (JArr ns))))
   \<and> getErrors (snd (build (snd (build t (JArr ns))) (JArr ns)))
       = getErrors (snd (build t (JArr ns)))
   \<and> toJSON (snd (build (snd (build t (JArr ns))) (JArr ns))) = toJSON (snd (build t (JArr ns)))
   \<and> snd (build t' (JArr ns)) = snd (build t (JArr ns))"
  by (simp add: build_array)

theorem build_twice_same_shape_witness:
  "toJSON (snd (build (snd (build SemanticTree_new sample_nodes)) sample_nodes))
     = Inr ([AuditObject (JStr ''b1'') (JStr ''Submit Button'') (JStr ''button'')
               [(''focusable'', JBool True), (''disabled'', JBool False)] []],
            [sample_error])
   \<and> toJSON (snd (build SemanticTree_new sample_nodes))
     = Inr ([AuditObject (JStr ''b1'') (JStr ''Submit Button'') (JStr ''button'')
               [(''focusable'', JBool True), (''disabled'', JBool False)] []],
            [sample_error])"
proof -
  have n: "sample_nodes = JArr [JObj [(''id'', JStr ''b1''), (''name'', JStr ''Submit Button''),
                 (''children'', JArr [])],
           JObj [(''id'', JStr ''x1''), (''name'', JStr ''UnknownWidget''), (''children'', JArr [])]]"
    by (simp add: sample_nodes_def)
  have j: "toJSON (snd (build SemanticTree_new sample_nodes))
     = Inr ([AuditObject (JStr ''b1'') (JStr ''Submit Button'') (JStr ''button'')
               [(''focusable'', JBool True), (''disabled'', JBool False)] []],
            [sample_error])"
    by (simp add: build_sample toJSON_def sample_tree_def sample_button_def)
  from build_twice_same_shape [of SemanticTree_new
      "[JObj [(''id'', JStr ''b1''), (''name'', JStr ''Submit Button''), (''children'', JArr [])],
        JObj [(''id'', JStr ''x1''), (''name'', JStr ''UnknownWidget''), (''children'', JArr [])]]"]
  have "toJSON (snd (build (snd (build SemanticTree_new sample_nodes)) sample_nodes))
      = toJSON (snd (build SemanticTree_new sample_nodes))"
    unfolding n by blast
  with j show ?thesis by simp
qed

subsection \<open>The invariant of a component\<close>

text \<open>
  C9. No component is ever constructed with an empty id, label or role. Instantiating
  \<open>UIComponent\<close> itself throws; the constructor of each concrete class throws when the id or
  the label is empty (or otherwise falsy) and supplies a role of its own that is not empty;
  no method reassigns the id or the role; \<open>setLabel\<close> throws on an empty value. So every
  component a program can hold, and every component below it, has an id, a label and a
  role that are not empty, whatever methods have been called.
\<close>

theorem components_are_never_empty:
  "UIComponent_new None i l r
     = Inl (Error ''UIComponent is abstract and cannot be instantiated directly.'')
   \<and> (\<not> truthy i \<or> \<not> truthy l \<longrightarrow>
        isl (Button_new i l) \<and> isl (InputField_new i l t) \<and> isl (NavigationRegion_new i l))
   \<and> \<not> truthy (JStr [])
   \<and> (Button_new i l = Inr c \<longrightarrow> getRole c = JStr ''button'')
   \<and> (InputField_new i l t = Inr c \<longrightarrow> getRole c = JStr ''textbox'')
   \<and> (NavigationRegion_new i l = Inr c \<longrightarrow> getRole c = JStr ''navigation'')
   \<and> isl (setLabel (JStr []) c)
   \<and> (apply_op op c = Inr c' \<longrightarrow>
        getId c' = getId c \<and> getRole c' = getRole c \<and> (nonempty c \<longrightarrow> nonempty c'))
   \<and> (constructed c \<longrightarrow>
        all_nonempty c
        \<and> list_all (\<lambda>k. getId k \<noteq> JStr [] \<and> getLabel k \<noteq> JStr [] \<and> getRole k \<noteq> JStr [])
             (preorder c))"
proof -
  have e: "list_all (\<lambda>k. getId k \<noteq> JStr [] \<and> getLabel k \<noteq> JStr [] \<and> getRole k \<noteq> JStr []) ks"
    if "list_all nonempty ks" for ks
    using that by (induction ks) (auto simp: nonempty_def)
  have p: "nonempty c'" if "apply_op op c = Inr c'" "nonempty c"
    using apply_op_fields [OF that(1)] that(2) by (simp add: nonempty_def)
  have s: "isl (setLabel (JStr []) c)"
    by (simp add: setLabel_def)
  have a: "all_nonempty c \<and> list_all (\<lambda>k. getId k \<noteq> JStr [] \<and> getLabel k \<noteq> JStr []
      \<and> getRole k \<noteq> JStr []) (preorder c)" if "constructed c"
    using constructed_all_nonempty [OF that] e [of "preorder c"]
    by (simp add: all_nonempty_def)
  have 1: "isl (Button_new i l) \<and> isl (InputField_new i l t) \<and> isl (NavigationRegion_new i l)"
    if "\<not> truthy i \<or> \<not> truthy l"
    using constructor_raises [OF that] by simp
  have 2: "getRole c = JStr ''button''" if "Button_new i l = Inr c"
    using constructor_nonempty(1) [OF that] by simp
  have 3: "getRole c = JStr ''textbox''" if "InputField_new i l t = Inr c"
    using constructor_nonempty(2) [OF that] by simp
  have 4: "getRole c = JStr ''navigation''" if "NavigationRegion_new i l = Inr c"
    using constructor_nonempty(3) [OF that] by simp
  have 5: "getId c' = getId c \<and> getRole c' = getRole c \<and> (nonempty c \<longrightarrow> nonempty c')"
    if "apply_op op c = Inr c'"
    using apply_op_fields(1,2) [OF that] p [OF that] by simp
  from 1 2 3 4 5 s a show ?thesis by simp
qed

theorem components_are_never_empty_witness:
  "isl (Button_new (JStr []) (JStr ''Save''))
   \<and> isl (InputField_new (JStr ''i1'') (JStr []) JUndefined)
   \<and> isl (NavigationRegion_new JUndefined (JStr ''Main Nav''))
   \<and> Button_new (JStr ''b1'') (JStr ''Submit Button'') = Inr sample_button
   \<and> getRole sample_button = JStr ''button''
   \<and> apply_op (SetLabel (JStr ''Send'')) sample_button
       = Inr (Component Button (JStr ''b1'') (JStr ''Send'') (JStr ''button'')
                [(''focusable'', JBool True), (''disabled'', JBool False)] [])
   \<and> constructed main_nav
   \<and> all_nonempty main_nav"
proof -
  note t = components_are_never_empty
  have b: "Button_new (JStr ''b1'') (JStr ''Submit Button'') = Inr sample_button"
    "Button_new (JStr ''b2'') (JStr ''Home'') = Inr home_button"
    by (simp_all add: Button_new_def setState_def sample_button_def home_button_def)
  have 1: "isl (Button_new (JStr []) (JStr ''Save''))"
    using t [of "JStr []" "JStr ''Save''"] by simp
  have 2: "isl (InputField_new (JStr ''i1'') (JStr []) JUndefined)"
    using t [of "JStr ''i1''" "JStr []" _ JUndefined] by simp
  have 3: "isl (NavigationRegion_new JUndefined (JStr ''Main Nav''))"
    using t [of JUndefined "JStr ''Main Nav''"] by simp
  have 4: "getRole sample_button = JStr ''button''"
    using t [of "JStr ''b1''" "JStr ''Submit Button''" _ _ sample_button] b by blast
  have 5: "apply_op (SetLabel (JStr ''Send'')) sample_button
       = Inr (Component Button (JStr ''b1'') (JStr ''Send'') (JStr ''button'')
                [(''focusable'', JBool True), (''disabled'', JBool False)] [])"
    by (simp add: setLabel_def sample_button_def)
  have n0: "NavigationRegion_new (JStr ''n2'') (JStr ''Main Nav'')
      = Inr (Component NavigationRegion (JStr ''n2'') (JStr ''Main Nav'') (JStr ''navigation'')
               [(''expanded'', JBool True)] [])"
    by (simp add: NavigationRegion_new_def setState_def)
  have c0: "constructed (Component NavigationRegion (JStr ''n2'') (JStr ''Main Nav'')
      (JStr ''navigation'') [(''expanded'', JBool True)] [])"
    using n0 by (rule constructed.by_NavigationRegion)
  have cb: "constructed sample_button" "constructed home_button"
    using b by (auto intro: constructed.by_Button)
  have c1: "constructed (Component NavigationRegion (JStr ''n2'') (JStr ''Main Nav'')
      (JStr ''navigation'') [(''expanded'', JBool True)] [sample_button])"
    by (rule constructed.by_method [OF c0, of "AddChild (Comp sample_button)"])
      (simp_all add: cb)
  have c2: "constructed main_nav"
    unfolding main_nav_def
    by (rule constructed.by_method [OF c1, of "AddChild (Comp home_button)"])
      (simp_all add: cb)
  from t [of _ _ _ _ main_nav] c2 have 6: "all_nonempty main_nav" by blast
  from 1 2 3 b(1) 4 5 c2 6 show ?thesis by blast
qed

subsection \<open>The arrays the accessors return\<close>

text \<open>
  C10. \<open>getRoots()\<close> and \<open>getErrors()\<close> return copies. Once the builder's own arrays are
  allocated, whatever a caller does to the array that either accessor returned, a later
  \<open>getRoots()\<close>, \<open>getErrors()\<close> or \<open>toJSON()\<close> gives what it would have given before. (The
  array under \<open>errors\<close> in the result of \<open>toJSON()\<close> is the builder's own, as lemma
  \<open>toJSON_errors_is_shared\<close> shows; the claim is not about that array.)
\<close>

theorem returned_copies_are_independent:
  assumes "allocated s (roots_ref t)" and "allocated s (errors_ref t)"
    and "(a, s') = getRoots_ref t s \<or> (a, s') = getErrors_ref t s"
  shows "a \<noteq> roots_ref t \<and> a \<noteq> errors_ref t
    \<and> observe_getRoots t (mutate a xs s') = observe_getRoots t s
    \<and> observe_getErrors t (mutate a xs s') = observe_getErrors t s
    \<and> observe_toJSON t (mutate a xs s') = observe_toJSON t s"
proof -
  from assms(3) have a: "a = length s" and s': "length s' = Suc (length s)"
    and old: "\<And>b. b < length s \<Longrightarrow> elements s' b = elements s b"
    by (auto simp: getRoots_ref_def getErrors_ref_def alloc_def)
  have r: "roots_ref t < length s" and e: "errors_ref t < length s"
    using assms(1,2) by (simp_all add: allocated_def)
  have al: "allocated (mutate a xs s') (roots_ref t)" "allocated (mutate a xs s') (errors_ref t)"
    using r e s' by (simp_all add: allocated_def)
  have "elements (mutate a xs s') (roots_ref t) = elements s (roots_ref t)"
    and "elements (mutate a xs s') (errors_ref t) = elements s (errors_ref t)"
    using r e a old by simp_all
  then show ?thesis
    using al assms(1,2) r e a
    by (simp add: observe_getRoots observe_getErrors observe_toJSON split: sum.splits)
qed

theorem returned_copies_are_independent_witness:
  "build_ref \<lparr>roots_ref = 0, errors_ref = 0\<rparr> [] sample_nodes = (Inr (), sample_ref, sample_store)
   \<and> allocated sample_store (roots_ref sample_ref)
   \<and> allocated sample_store (errors_ref sample_ref)
   \<and> getRoots_ref sample_ref sample_store
       = (2, sample_store @ [[ElemItem (Comp sample_button)]])
   \<and> observe_getRoots sample_ref
        (mutate 2 [] (sample_store @ [[ElemItem (Comp sample_button)]]))
       = [ElemItem (Comp sample_button)]
   \<and> observe_getErrors sample_ref
        (mutate 2 [] (sample_store @ [[ElemItem (Comp sample_button)]]))
       = [ErrorItem sample_error]
   \<and> getErrors_ref sample_ref sample_store = (2, sample_store @ [[ErrorItem sample_error]])
   \<and> observe_getErrors sample_ref
        (mutate 2 [ErrorItem sample_error, ErrorItem sample_error]
           (sample_store @ [[ErrorItem sample_error]]))
       = [ErrorItem sample_error]"
proof -
  have b: "build_ref \<lparr>roots_ref = 0, errors_ref = 0\<rparr> [] sample_nodes
      = (Inr (), sample_ref, sample_store)"
    using build_sample
    by (simp add: build_ref_def build_def sample_nodes_def sample_tree_def sample_ref_def
        sample_store_def alloc_def)
  have al: "allocated sample_store (roots_ref sample_ref)"
    "allocated sample_store (errors_ref sample_ref)"
    by (simp_all add: allocated_def sample_store_def sample_ref_def)
  have g: "getRoots_ref sample_ref sample_store
      = (2, sample_store @ [[ElemItem (Comp sample_button)]])"
    "getErrors_ref sample_ref sample_store = (2, sample_store @ [[ErrorItem sample_error]])"
    by (simp_all add: getRoots_ref_def getErrors_ref_def alloc_def elements_def sample_store_def
        sample_ref_def)
  have o: "observe_getRoots sample_ref sample_store = [ElemItem (Comp sample_button)]"
    "observe_getErrors sample_ref sample_store = [ErrorItem sample_error]"
    using al by (simp_all add: observe_getRoots observe_getErrors)
      (simp_all add: elements_def sample_store_def sample_ref_def)
  note t1 = returned_copies_are_independent [OF al, of 2
      "sample_store @ [[ElemItem (Comp sample_button)]]" "[]"]
  note t2 = returned_copies_are_independent [OF al, of 2
      "sample_store @ [[ErrorItem sample_error]]"
      "[ErrorItem sample_error, ErrorItem sample_error]"]
  from t1 g(1) o have 1: "observe_getRoots sample_ref
        (mutate 2 [] (sample_store @ [[ElemItem (Comp sample_button)]]))
       = [ElemItem (Comp sample_button)]"
    and 2: "observe_getErrors sample_ref
        (mutate 2 [] (sample_store @ [[ElemItem (Comp sample_button)]]))
       = [ErrorItem sample_error]"
    by simp_all
  from t2 g(2) o have 3: "observe_getErrors sample_ref
        (mutate 2 [ErrorItem sample_error, ErrorItem sample_error]
           (sample_store @ [[ErrorItem sample_error]]))
       = [ErrorItem sample_error]"
    by simp
  from b al g 1 2 3 show ?thesis by blast
qed


end
